theory Spec2Isabelle
  imports Main
begin

section \<open>Data model\<close>

text \<open>
  Every RDF node that \<^verbatim>\<open>create_annotations.py\<close> handles is a \<^verbatim>\<open>URIRef\<close>, a subclass of
  Python's \<^verbatim>\<open>str\<close>: a URI is a string here. A graph of the triple store is a set of
  triples; it is kept as the list of its triples in the order of their insertion, without
  repetition, which is the order in which the in-memory store hands them to a query.
\<close>

type_synonym uri = string
type_synonym triple = "uri \<times> uri \<times> uri"
type_synonym rdf_graph = "triple list"

text \<open>\<^verbatim>\<open>Graph.add\<close>: a triple already in the graph is not added again.\<close>

definition graph_add :: "rdf_graph \<Rightarrow> triple \<Rightarrow> rdf_graph" where
  "graph_add g t = (if t \<in> set g then g else g @ [t])"

text \<open>
  The SPARQL query \<^verbatim>\<open>SELECT ?subject WHERE { ?subject ?predicate ?object }\<close> with
  \<^verbatim>\<open>predicate\<close> and \<^verbatim>\<open>object\<close> bound beforehand: one row for each triple of the graph
  with that predicate and that object, holding the triple's subject.
\<close>

definition query_subjects :: "rdf_graph \<Rightarrow> uri \<Rightarrow> uri \<Rightarrow> uri list" where
  "query_subjects g p ob = map fst (filter (\<lambda>t. fst (snd t) = p \<and> snd (snd t) = ob) g)"

text \<open>
  The state the functions share: the graph they are handed by reference, the module's
  global \<^verbatim>\<open>_LOCAL_ID_COUNTER\<close>, and the lines printed so far.
\<close>

record state =
  graph :: rdf_graph
  counter :: int
  stdout :: "string list"

subsection \<open>Namespaces and constants\<close>

definition OMEXlib :: string where "OMEXlib = ''http://omex-library.org/''"
definition LOCAL :: string where "LOCAL = ''http://omex-library.org/annotations.ttl#''"
definition BQBIOL :: string where "BQBIOL = ''http://biomodels.net/biology-qualifiers/''"
definition UBERON :: string where "UBERON = ''http://purl.obolibrary.org/obo/UBERON_''"
definition OPB :: string where "OPB = ''http://bhi.washington.edu/OPB#''"

text \<open>\<^verbatim>\<open>Namespace.__getitem__\<close>: the namespace followed by the key.\<close>

definition ns_term :: "string \<Rightarrow> string \<Rightarrow> uri" where
  "ns_term ns key = ns @ key"

definition VOLUME_URI :: uri where "VOLUME_URI = ns_term OPB ''OPB_00154''"
definition PRESSURE_URI :: uri where "PRESSURE_URI = ns_term OPB ''OPB_00509''"
definition BLOOD_URI :: uri where "BLOOD_URI = ns_term UBERON ''0000178''"

subsection \<open>Decimal rendering of Python's integers\<close>

definition digit_char :: "nat \<Rightarrow> char" where
  "digit_char d = ''0123456789'' ! d"

fun str_nat :: "nat \<Rightarrow> string" where
  "str_nat n = (if n < 10 then [digit_char n]
                else str_nat (n div 10) @ [digit_char (n mod 10)])"

declare str_nat.simps [simp del]

definition str_int :: "int \<Rightarrow> string" where
  "str_int i = (if i < 0 then CHR ''-'' # str_nat (nat (- i)) else str_nat (nat i))"

subsection \<open>String operations of Python\<close>

text \<open>\<^verbatim>\<open>s.endswith(suf)\<close>.\<close>

definition endswith :: "string \<Rightarrow> string \<Rightarrow> bool" where
  "endswith s suf = (length suf \<le> length s \<and> drop (length s - length suf) s = suf)"

text \<open>\<^verbatim>\<open>s.split(sep)\<close> for a separator of one character; the result is never empty.\<close>

fun split_str :: "char \<Rightarrow> string \<Rightarrow> string list" where
  "split_str sep [] = [[]]"
| "split_str sep (c # cs) =
     (if c = sep then [] # split_str sep cs
      else (case split_str sep cs of
              [] \<Rightarrow> [[c]]
            | w # ws \<Rightarrow> (c # w) # ws))"

section \<open>The program\<close>

text \<open>\<^verbatim>\<open>_get_local_id\<close>: the counter is incremented first, then rendered.\<close>

definition get_local_id :: "state \<Rightarrow> uri \<times> state" where
  "get_local_id st =
     (let c = counter st + 1
      in (''local-node-'' @ str_int c, st\<lparr>counter := c\<rparr>))"

subsection \<open>The ID extractor\<close>

text \<open>
  The parsed document, as \<^verbatim>\<open>etree.fromstring\<close> returns it: an element has its attributes
  (qualified name and value) and its children. \<^verbatim>\<open>root.iter()\<close> walks the tree in document
  order, the element itself first.
\<close>

datatype element = Element (attrib: "(string \<times> string) list") (children: "element list")

fun iter :: "element \<Rightarrow> element list" where
  "iter (Element a cs) = Element a cs # concat (map iter cs)"

record model_ids =
  volume_ids :: "string list"
  pressure_ids :: "string list"
  flow_ids :: "string list"

definition qualified_name :: string where
  "qualified_name = ''{'' @ ''http://www.cellml.org/metadata/1.0#'' @ ''}'' @ ''id''"

text \<open>The first loop of \<^verbatim>\<open>get_model_ids\<close>.\<close>

fun collect_attributes :: "element list \<Rightarrow> string list \<Rightarrow> string list" where
  "collect_attributes [] attributes = attributes"
| "collect_attributes (elem # rest) attributes =
     (case map_of (attrib elem) qualified_name of
        Some v \<Rightarrow> collect_attributes rest (attributes @ [v])
      | None \<Rightarrow> collect_attributes rest attributes)"

text \<open>The second loop of \<^verbatim>\<open>get_model_ids\<close>, with the lines it prints.\<close>

fun classify_loop ::
  "string list \<Rightarrow> string list \<Rightarrow> string list \<Rightarrow> string list \<Rightarrow> string list
     \<Rightarrow> model_ids \<times> string list" where
  "classify_loop [] vs ps fs out =
     (\<lparr>volume_ids = vs, pressure_ids = ps, flow_ids = fs\<rparr>, out)"
| "classify_loop (v # rest) vs ps fs out =
     (if endswith v ''.blood.volume'' then classify_loop rest (vs @ [v]) ps fs out
      else if endswith v ''.blood.pressure'' then classify_loop rest vs (ps @ [v]) fs out
      else if endswith v ''.blood.flow'' then classify_loop rest vs ps (fs @ [v]) out
      else classify_loop rest vs ps fs (out @ [''Unknown ID: '' @ v]))"

definition get_model_ids :: "element \<Rightarrow> string list \<Rightarrow> model_ids \<times> string list" where
  "get_model_ids root out =
     (let attributes = collect_attributes (iter root) []
      in classify_loop attributes [] [] [] out)"

subsection \<open>The cavity resolver\<close>

definition cavity_map :: "(string \<times> string) list" where
  "cavity_map =
     [(''lv'', ''0016514''),
      (''rv'', ''0016509''),
      (''la'', ''0016513''),
      (''ra'', ''0016522''),
      (''pa'', ''0002012''),
      (''lung'', ''0000102''),
      (''pulm-vein'', ''0002016''),
      (''brain'', ''0008998''),
      (''brain-vein'', ''2005031''),
      (''aa'', ''0001496''),
      (''celiac'', ''0001640''),
      (''sup-mes'', ''0001182''),
      (''stomach'', ''0000945''),
      (''spleen'', ''0036301''),
      (''pancreas'', ''0001264''),
      (''intestine'', ''0000160''),
      (''colon'', ''0001155''),
      (''portal-vein'', ''0002017''),
      (''liver'', ''0006877'')]"

definition map_to_uberon_cavity :: "string \<Rightarrow> string list \<Rightarrow> uri \<times> string list" where
  "map_to_uberon_cavity cavity_abbr out =
     (case map_of cavity_map cavity_abbr of
        Some code \<Rightarrow> (ns_term UBERON code, out)
      | None \<Rightarrow>
          (ns_term UBERON ''0001062'',
           out @ [''Unknown cavity abbreviation: '' @ cavity_abbr]))"

subsection \<open>The local entity deduplicator\<close>

definition create_local_blood_cavity_definition :: "state \<Rightarrow> uri \<Rightarrow> uri \<times> state" where
  "create_local_blood_cavity_definition st cavity_uri =
     (case query_subjects (graph st) (ns_term BQBIOL ''isPartOf'') cavity_uri of
        subject # _ \<Rightarrow> (subject, st)
      | [] \<Rightarrow>
          (let (lid, st1) = get_local_id st;
               local_node = ns_term LOCAL lid;
               st2 = st1\<lparr>graph := graph_add (graph st1)
                        (local_node, ns_term BQBIOL ''is'', BLOOD_URI)\<rparr>;
               st3 = st2\<lparr>graph := graph_add (graph st2)
                        (local_node, ns_term BQBIOL ''isPartOf'', cavity_uri)\<rparr>
           in (local_node, st3)))"

subsection \<open>The annotation emitter\<close>

text \<open>\<^verbatim>\<open>model\<close> is the path of the model file as \<^verbatim>\<open>as_posix()\<close> renders it.\<close>

definition create_blood_volume_annotation :: "state \<Rightarrow> string \<Rightarrow> string \<Rightarrow> state" where
  "create_blood_volume_annotation st model model_id =
     (let model_uri = ns_term OMEXlib (model @ ''#'' @ model_id);
          cavity = hd (split_str CHR ''.'' model_id);
          (cavity_uri, out) = map_to_uberon_cavity cavity (stdout st);
          (local_node, st1) =
             create_local_blood_cavity_definition (st\<lparr>stdout := out\<rparr>) cavity_uri;
          st2 = st1\<lparr>graph := graph_add (graph st1)
                   (model_uri, ns_term BQBIOL ''isPropertyOf'', local_node)\<rparr>
      in st2\<lparr>graph := graph_add (graph st2)
                   (model_uri, ns_term BQBIOL ''isVersionOf'', VOLUME_URI)\<rparr>)"

definition create_blood_pressure_annotation :: "state \<Rightarrow> string \<Rightarrow> string \<Rightarrow> state" where
  "create_blood_pressure_annotation st model model_id =
     (let model_uri = ns_term OMEXlib (model @ ''#'' @ model_id);
          cavity = hd (split_str CHR ''.'' model_id);
          (cavity_uri, out) = map_to_uberon_cavity cavity (stdout st);
          (local_node, st1) =
             create_local_blood_cavity_definition (st\<lparr>stdout := out\<rparr>) cavity_uri;
          st2 = st1\<lparr>graph := graph_add (graph st1)
                   (model_uri, ns_term BQBIOL ''isPropertyOf'', local_node)\<rparr>
      in st2\<lparr>graph := graph_add (graph st2)
                   (model_uri, ns_term BQBIOL ''isVersionOf'', PRESSURE_URI)\<rparr>)"

subsection \<open>The driver\<close>

definition cellml_file :: string where
  "cellml_file = ''models/cvs-model.cellml''"

text \<open>
  The two loops of the main block over the extracted IDs: the volumes first, then the
  pressures. The graph is the fresh \<^verbatim>\<open>Graph()\<close> of the state it is given.
\<close>

definition annotate_model_ids :: "state \<Rightarrow> model_ids \<Rightarrow> state" where
  "annotate_model_ids st ids =
     foldl (\<lambda>s pressure. create_blood_pressure_annotation s cellml_file pressure)
       (foldl (\<lambda>s volume. create_blood_volume_annotation s cellml_file volume)
          st (volume_ids ids))
       (pressure_ids ids)"

text \<open>The state of a process that has just loaded the module and created its graph.\<close>

definition initial_state :: state where
  "initial_state = \<lparr>graph = [], counter = 1024, stdout = []\<rparr>"


section \<open>Notions used by the statements\<close>

text \<open>The four qualifiers the program uses, as it writes them.\<close>

abbreviation bqbiol_is :: uri where "bqbiol_is \<equiv> ns_term BQBIOL ''is''"
abbreviation isPartOf :: uri where "isPartOf \<equiv> ns_term BQBIOL ''isPartOf''"
abbreviation isPropertyOf :: uri where "isPropertyOf \<equiv> ns_term BQBIOL ''isPropertyOf''"
abbreviation isVersionOf :: uri where "isVersionOf \<equiv> ns_term BQBIOL ''isVersionOf''"

text \<open>The local node that \<^verbatim>\<open>LOCAL[_get_local_id()]\<close> makes when the counter has reached \<open>n\<close>.\<close>

definition local_uri :: "int \<Rightarrow> uri" where
  "local_uri n = ns_term LOCAL (''local-node-'' @ str_int n)"

text \<open>The URI of a model variable, and the location its ID resolves to.\<close>

definition model_uri :: "string \<Rightarrow> string \<Rightarrow> uri" where
  "model_uri model model_id = ns_term OMEXlib (model @ ''#'' @ model_id)"

definition cavity_uri_of :: "string \<Rightarrow> uri" where
  "cavity_uri_of model_id = fst (map_to_uberon_cavity (hd (split_str CHR ''.'' model_id)) [])"

text \<open>
  A run is any sequence of calls of the two emitters on one graph; the two loops of the
  driver are the runs whose calls all name \<^verbatim>\<open>cellml_file\<close>, the volumes first.
\<close>

datatype annotation_call =
  Volume_call string string
| Pressure_call string string

fun run_call :: "state \<Rightarrow> annotation_call \<Rightarrow> state" where
  "run_call st (Volume_call model model_id) = create_blood_volume_annotation st model model_id"
| "run_call st (Pressure_call model model_id) =
     create_blood_pressure_annotation st model model_id"

definition run_calls :: "state \<Rightarrow> annotation_call list \<Rightarrow> state" where
  "run_calls st cs = foldl run_call st cs"

fun call_uri :: "annotation_call \<Rightarrow> uri" where
  "call_uri (Volume_call model model_id) = model_uri model model_id"
| "call_uri (Pressure_call model model_id) = model_uri model model_id"

fun call_location :: "annotation_call \<Rightarrow> uri" where
  "call_location (Volume_call model model_id) = cavity_uri_of model_id"
| "call_location (Pressure_call model model_id) = cavity_uri_of model_id"

fun call_term :: "annotation_call \<Rightarrow> uri" where
  "call_term (Volume_call model model_id) = VOLUME_URI"
| "call_term (Pressure_call model model_id) = PRESSURE_URI"

text \<open>
  The stricter lookup that the specification's design notes describe: the subjects that
  are part of the location and are blood as well.
\<close>

definition query_blood_subjects :: "rdf_graph \<Rightarrow> uri \<Rightarrow> uri list" where
  "query_blood_subjects g loc =
     map fst (filter (\<lambda>t. fst (snd t) = isPartOf \<and> snd (snd t) = loc
                          \<and> (fst t, bqbiol_is, BLOOD_URI) \<in> set g) g)"

text \<open>
  The invariant of a run that starts from an empty graph with the counter at \<open>c0\<close>:
  every subject of an \<^verbatim>\<open>is\<close> or \<^verbatim>\<open>isPartOf\<close> triple is a local node minted since, a subject
  that is part of a location is blood, a location has one such subject, and a subject one
  location.
\<close>

definition dedup_inv :: "int \<Rightarrow> state \<Rightarrow> bool" where
  "dedup_inv c0 st \<longleftrightarrow>
     c0 \<le> counter st \<and>
     (\<forall>s p ob. (s, p, ob) \<in> set (graph st) \<and> (p = bqbiol_is \<or> p = isPartOf) \<longrightarrow>
        (\<exists>n. c0 < n \<and> n \<le> counter st \<and> s = local_uri n)) \<and>
     (\<forall>s loc. (s, isPartOf, loc) \<in> set (graph st) \<longrightarrow>
        (s, bqbiol_is, BLOOD_URI) \<in> set (graph st)) \<and>
     (\<forall>s1 s2 loc. (s1, isPartOf, loc) \<in> set (graph st) \<and> (s2, isPartOf, loc) \<in> set (graph st)
        \<longrightarrow> s1 = s2) \<and>
     (\<forall>s loc1 loc2. (s, isPartOf, loc1) \<in> set (graph st) \<and> (s, isPartOf, loc2) \<in> set (graph st)
        \<longrightarrow> loc1 = loc2)"

text \<open>
  Renumbering the local nodes: the node of number \<open>n\<close> becomes the node of number
  \<open>n + d\<close>, every other URI stays.
\<close>

definition shift_local :: "int \<Rightarrow> uri \<Rightarrow> uri" where
  "shift_local d u = (if u \<in> range local_uri then local_uri (inv local_uri u + d) else u)"

definition shift_triple :: "int \<Rightarrow> triple \<Rightarrow> triple" where
  "shift_triple d t = (shift_local d (fst t), shift_local d (fst (snd t)), shift_local d (snd (snd t)))"

text \<open>Two notions of the proofs: the predicates a run uses, and two runs in step.\<close>

definition known_predicates :: "state \<Rightarrow> bool" where
  "known_predicates st \<longleftrightarrow>
     (\<forall>s p ob. (s, p, ob) \<in> set (graph st) \<longrightarrow>
        p = bqbiol_is \<or> p = isPartOf \<or> p = isPropertyOf \<or> p = isVersionOf)"

definition sim :: "int \<Rightarrow> state \<Rightarrow> state \<Rightarrow> bool" where
  "sim d st1 st2 \<longleftrightarrow>
     graph st2 = map (shift_triple d) (graph st1) \<and> counter st2 = counter st1 + d"

section \<open>Auxiliary facts\<close>

lemmas uri_defs = ns_term_def OMEXlib_def LOCAL_def BQBIOL_def UBERON_def OPB_def
  VOLUME_URI_def PRESSURE_URI_def BLOOD_URI_def

lemma endswith_iff: "endswith s suf \<longleftrightarrow> (\<exists>p. s = p @ suf)"
proof
  assume "endswith s suf"
  then have "s = take (length s - length suf) s @ suf"
    by (metis append_take_drop_id endswith_def)
  then show "\<exists>p. s = p @ suf" ..
next
  assume "\<exists>p. s = p @ suf"
  then show "endswith s suf" by (auto simp: endswith_def)
qed

lemma volume_not_pressure:
  "endswith v ''.blood.volume'' \<Longrightarrow> \<not> endswith v ''.blood.pressure''"
proof
  assume "endswith v ''.blood.volume''" "endswith v ''.blood.pressure''"
  then obtain p q where "v = p @ ''.blood.volume''" "v = q @ ''.blood.pressure''"
    by (auto simp: endswith_iff)
  then have "rev (p @ ''.blood.volume'') = rev (q @ ''.blood.pressure'')" by simp
  then show False by simp
qed

lemma volume_not_flow:
  "endswith v ''.blood.volume'' \<Longrightarrow> \<not> endswith v ''.blood.flow''"
proof
  assume "endswith v ''.blood.volume''" "endswith v ''.blood.flow''"
  then obtain p q where "v = p @ ''.blood.volume''" "v = q @ ''.blood.flow''"
    by (auto simp: endswith_iff)
  then have "rev (p @ ''.blood.volume'') = rev (q @ ''.blood.flow'')" by simp
  then show False by simp
qed

lemma pressure_not_flow:
  "endswith v ''.blood.pressure'' \<Longrightarrow> \<not> endswith v ''.blood.flow''"
proof
  assume "endswith v ''.blood.pressure''" "endswith v ''.blood.flow''"
  then obtain p q where "v = p @ ''.blood.pressure''" "v = q @ ''.blood.flow''"
    by (auto simp: endswith_iff)
  then have "rev (p @ ''.blood.pressure'') = rev (q @ ''.blood.flow'')" by simp
  then show False by simp
qed

lemma classify_loop_filter:
  "classify_loop xs vs ps fs out =
     (\<lparr>volume_ids = vs @ filter (\<lambda>v. endswith v ''.blood.volume'') xs,
       pressure_ids = ps @ filter (\<lambda>v. endswith v ''.blood.pressure'') xs,
       flow_ids = fs @ filter (\<lambda>v. endswith v ''.blood.flow'') xs\<rparr>,
      out @ map (\<lambda>v. ''Unknown ID: '' @ v)
        (filter (\<lambda>v. \<not> endswith v ''.blood.volume'' \<and> \<not> endswith v ''.blood.pressure''
                     \<and> \<not> endswith v ''.blood.flow'') xs))"
proof (induction xs arbitrary: vs ps fs out)
  case Nil
  show ?case by simp
next
  case (Cons x xs)
  show ?case
    using volume_not_pressure [of x] volume_not_flow [of x] pressure_not_flow [of x]
    by (simp add: Cons.IH)
qed

lemma split_str_nonempty: "split_str c s \<noteq> []"
  by (induction s) (auto split: list.splits)

lemma hd_split_str: "hd (split_str c s) = takeWhile (\<lambda>x. x \<noteq> c) s"
  using split_str_nonempty [of c]
  by (induction s) (auto split: list.splits)

subsection \<open>Decimal rendering is injective\<close>

lemma digit_char_inj:
  assumes "a < 10" "b < 10" "digit_char a = digit_char b"
  shows "a = b"
proof -
  have "distinct ''0123456789''" by simp
  moreover have "a < length ''0123456789''" "b < length ''0123456789''"
    using assms by simp_all
  ultimately show ?thesis
    using assms(3) unfolding digit_char_def by (simp only: nth_eq_iff_index_eq)
qed

lemma str_nat_nonempty: "str_nat n \<noteq> []"
  by (subst str_nat.simps) simp

lemma str_nat_digits: "c \<in> set (str_nat n) \<Longrightarrow> c \<in> set ''0123456789''"
proof (induction n rule: str_nat.induct)
  case (1 n)
  have d: "digit_char k \<in> set ''0123456789''" if "k < 10" for k
    unfolding digit_char_def using that by (intro nth_mem) simp
  show ?case
  proof (cases "n < 10")
    case True
    with "1.prems" d [of n] show ?thesis
      by (subst (asm) str_nat.simps) simp
  next
    case False
    with "1.prems" have "c \<in> set (str_nat (n div 10)) \<or> c = digit_char (n mod 10)"
      by (subst (asm) str_nat.simps) auto
    with "1.IH" False d [of "n mod 10"] show ?thesis by auto
  qed
qed

lemma str_nat_inj: "str_nat a = str_nat b \<Longrightarrow> a = b"
proof (induction a arbitrary: b rule: str_nat.induct)
  case (1 n)
  show ?case
  proof (cases "n < 10")
    case n: True
    show ?thesis
    proof (cases "b < 10")
      case True
      with n "1.prems" show ?thesis
        by (simp add: str_nat.simps [of n] str_nat.simps [of b] digit_char_inj)
    next
      case False
      with n "1.prems" str_nat_nonempty [of "n div 10"] str_nat_nonempty [of "b div 10"]
      show ?thesis
        by (auto simp: str_nat.simps [of n] str_nat.simps [of b])
    qed
  next
    case n: False
    show ?thesis
    proof (cases "b < 10")
      case True
      with n "1.prems" str_nat_nonempty [of "n div 10"] str_nat_nonempty [of "b div 10"]
      show ?thesis
        by (auto simp: str_nat.simps [of n] str_nat.simps [of b])
    next
      case False
      with n "1.prems" have e: "str_nat (n div 10) = str_nat (b div 10)"
        and m: "digit_char (n mod 10) = digit_char (b mod 10)"
        by (simp_all add: str_nat.simps [of n] str_nat.simps [of b])
      from "1.IH" [OF n e] have "n div 10 = b div 10" .
      moreover from m have "n mod 10 = b mod 10"
        by (intro digit_char_inj) simp_all
      ultimately show ?thesis
        by (metis div_mult_mod_eq)
    qed
  qed
qed

lemma str_nat_no_minus: "hd (str_nat n) \<noteq> CHR ''-''"
proof
  assume h: "hd (str_nat n) = CHR ''-''"
  have "hd (str_nat n) \<in> set (str_nat n)"
    using str_nat_nonempty by simp
  with h str_nat_digits [of "CHR ''-''" n] show False by simp
qed

lemma str_int_inj: "str_int a = str_int b \<Longrightarrow> a = b"
proof -
  assume e: "str_int a = str_int b"
  have neg: False if "x < 0" "0 \<le> y" "str_int x = str_int y" for x y
  proof -
    from that have "CHR ''-'' # str_nat (nat (- x)) = str_nat (nat y)"
      by (simp add: str_int_def)
    then have "hd (str_nat (nat y)) = CHR ''-''"
      by (metis list.sel(1))
    with str_nat_no_minus show False by blast
  qed
  consider "a < 0" "b < 0" | "a < 0" "0 \<le> b" | "0 \<le> a" "b < 0" | "0 \<le> a" "0 \<le> b"
    by linarith
  then show ?thesis
  proof cases
    case 1
    with e have "str_nat (nat (- a)) = str_nat (nat (- b))" by (simp add: str_int_def)
    then have "nat (- a) = nat (- b)" by (rule str_nat_inj)
    with 1 show ?thesis by simp
  next
    case 2 with neg [of a b] e show ?thesis by simp
  next
    case 3 with neg [of b a] e show ?thesis by simp
  next
    case 4
    with e have "str_nat (nat a) = str_nat (nat b)" by (simp add: str_int_def)
    then have "nat a = nat b" by (rule str_nat_inj)
    with 4 show ?thesis by simp
  qed
qed

lemma local_uri_eq_iff [simp]: "local_uri a = local_uri b \<longleftrightarrow> a = b"
  by (auto simp: local_uri_def ns_term_def dest: str_int_inj)

lemma inj_local_uri: "inj local_uri"
  by (rule injI) simp

subsection \<open>The graph operations\<close>

lemma set_graph_add [simp]: "set (graph_add g t) = insert t (set g)"
  by (auto simp: graph_add_def)

lemma set_query_subjects: "set (query_subjects g p ob) = {s. (s, p, ob) \<in> set g}"
  by (force simp: query_subjects_def)

lemma query_subjects_graph_add_other:
  "fst (snd t) \<noteq> p \<Longrightarrow> query_subjects (graph_add g t) p ob = query_subjects g p ob"
  by (simp add: query_subjects_def graph_add_def)

lemma query_subjects_empty_iff:
  "query_subjects g p ob = [] \<longleftrightarrow> (\<forall>s. (s, p, ob) \<notin> set g)"
  using set_query_subjects [of g p ob] by auto

lemma query_subjects_graph_add_new:
  "query_subjects g p ob = [] \<Longrightarrow> query_subjects (graph_add g (s, p, ob)) p ob = [s]"
  by (auto simp: query_subjects_def graph_add_def filter_empty_conv)

lemma qualifiers_distinct [simp]:
  "bqbiol_is \<noteq> isPartOf" "isPropertyOf \<noteq> isPartOf" "isVersionOf \<noteq> isPartOf"
  "isPropertyOf \<noteq> bqbiol_is" "isVersionOf \<noteq> bqbiol_is" "isPropertyOf \<noteq> isVersionOf"
  "isPartOf \<noteq> bqbiol_is" "isPartOf \<noteq> isPropertyOf" "isPartOf \<noteq> isVersionOf"
  "bqbiol_is \<noteq> isPropertyOf" "bqbiol_is \<noteq> isVersionOf" "isVersionOf \<noteq> isPropertyOf"
  by (simp_all add: ns_term_def)

subsection \<open>One call of the deduplicator\<close>

lemma create_found:
  "query_subjects (graph st) isPartOf loc = s # rest \<Longrightarrow>
   create_local_blood_cavity_definition st loc = (s, st)"
  by (simp add: create_local_blood_cavity_definition_def)

lemma create_mint:
  assumes "query_subjects (graph st) isPartOf loc = []"
  shows "create_local_blood_cavity_definition st loc =
    (local_uri (counter st + 1),
     st\<lparr>counter := counter st + 1,
        graph := graph_add (graph_add (graph st)
                   (local_uri (counter st + 1), bqbiol_is, BLOOD_URI))
                   (local_uri (counter st + 1), isPartOf, loc)\<rparr>)"
  using assms
  by (simp add: create_local_blood_cavity_definition_def get_local_id_def local_uri_def
      Let_def)

lemma create_stdout:
  "stdout (snd (create_local_blood_cavity_definition st loc)) = stdout st"
  by (cases "query_subjects (graph st) isPartOf loc")
     (simp_all add: create_found create_mint)

lemma create_ignores_stdout:
  "create_local_blood_cavity_definition (st\<lparr>stdout := out\<rparr>) loc =
   (fst (create_local_blood_cavity_definition st loc),
    (snd (create_local_blood_cavity_definition st loc))\<lparr>stdout := out\<rparr>)"
  by (cases "query_subjects (graph st) isPartOf loc")
     (simp_all add: create_local_blood_cavity_definition_def get_local_id_def Let_def)

text \<open>After a call, the location has a first subject: the node the call returned.\<close>

lemma create_then_query:
  assumes "create_local_blood_cavity_definition st loc = (l, st1)"
  shows "\<exists>rest. query_subjects (graph st1) isPartOf loc = l # rest"
proof (cases "query_subjects (graph st) isPartOf loc")
  case (Cons s rest)
  with assms create_found [OF Cons] show ?thesis by auto
next
  case Nil
  with assms create_mint [OF Nil] have l: "l = local_uri (counter st + 1)"
    and g: "graph st1 = graph_add (graph_add (graph st) (l, bqbiol_is, BLOOD_URI)) (l, isPartOf, loc)"
    by auto
  from Nil have "query_subjects (graph_add (graph st) (l, bqbiol_is, BLOOD_URI)) isPartOf loc = []"
    by (simp add: query_subjects_graph_add_other)
  then show ?thesis
    unfolding g by (simp add: query_subjects_graph_add_new)
qed

subsection \<open>One call of an emitter\<close>

lemma fst_map_to_uberon_cavity:
  "fst (map_to_uberon_cavity (hd (split_str CHR ''.'' model_id)) out) = cavity_uri_of model_id"
  by (simp add: cavity_uri_of_def map_to_uberon_cavity_def split: option.splits)

lemma run_call_eq:
  "\<exists>out. run_call st c =
     (let r = create_local_blood_cavity_definition (st\<lparr>stdout := out\<rparr>) (call_location c)
      in (snd r)\<lparr>graph := graph_add (graph_add (graph (snd r))
                    (call_uri c, isPropertyOf, fst r))
                    (call_uri c, isVersionOf, call_term c)\<rparr>)"
proof (cases c)
  case (Volume_call model model_id)
  obtain loc out where m: "map_to_uberon_cavity (hd (split_str CHR ''.'' model_id)) (stdout st) = (loc, out)"
    by force
  with fst_map_to_uberon_cavity [of model_id "stdout st"] have "loc = cavity_uri_of model_id"
    by simp
  with m Volume_call show ?thesis
    by (intro exI [of _ out])
       (simp add: create_blood_volume_annotation_def model_uri_def Let_def split: prod.splits)
next
  case (Pressure_call model model_id)
  obtain loc out where m: "map_to_uberon_cavity (hd (split_str CHR ''.'' model_id)) (stdout st) = (loc, out)"
    by force
  with fst_map_to_uberon_cavity [of model_id "stdout st"] have "loc = cavity_uri_of model_id"
    by simp
  with m Pressure_call show ?thesis
    by (intro exI [of _ out])
       (simp add: create_blood_pressure_annotation_def model_uri_def Let_def split: prod.splits)
qed

lemma run_call_graph:
  "graph (run_call st c) =
     (let r = create_local_blood_cavity_definition st (call_location c)
      in graph_add (graph_add (graph (snd r)) (call_uri c, isPropertyOf, fst r))
           (call_uri c, isVersionOf, call_term c))"
  using run_call_eq [of st c] by (auto simp: Let_def create_ignores_stdout)

lemma run_call_counter:
  "counter (run_call st c) = counter (snd (create_local_blood_cavity_definition st (call_location c)))"
  using run_call_eq [of st c] by (auto simp: Let_def create_ignores_stdout)

subsection \<open>Runs\<close>

lemma run_calls_Nil [simp]: "run_calls st [] = st"
  by (simp add: run_calls_def)

lemma run_calls_snoc [simp]: "run_calls st (cs @ [c]) = run_call (run_calls st cs) c"
  by (simp add: run_calls_def)

lemma run_calls_append: "run_calls st (cs @ cs') = run_calls (run_calls st cs) cs'"
  by (simp add: run_calls_def)

lemma annotate_model_ids_run_calls:
  "annotate_model_ids st ids =
     run_calls st (map (Volume_call cellml_file) (volume_ids ids) @
                   map (Pressure_call cellml_file) (pressure_ids ids))"
  by (simp add: annotate_model_ids_def run_calls_def foldl_map)

lemma create_graph_mono:
  "set (graph st) \<subseteq> set (graph (snd (create_local_blood_cavity_definition st loc)))"
  by (cases "query_subjects (graph st) isPartOf loc")
     (auto simp: create_found create_mint)

lemma create_counter_mono:
  "counter st \<le> counter (snd (create_local_blood_cavity_definition st loc))"
  by (cases "query_subjects (graph st) isPartOf loc")
     (auto simp: create_found create_mint)

lemma run_call_graph_mono: "set (graph st) \<subseteq> set (graph (run_call st c))"
  using create_graph_mono [of st "call_location c"]
  by (auto simp: run_call_graph Let_def)

lemma run_calls_graph_mono: "set (graph st) \<subseteq> set (graph (run_calls st cs))"
proof (induction cs rule: rev_induct)
  case Nil
  show ?case by simp
next
  case (snoc c cs)
  with run_call_graph_mono [of "run_calls st cs" c] show ?case by auto
qed

subsection \<open>The invariant of a run\<close>

lemma dedup_inv_init: "graph st = [] \<Longrightarrow> dedup_inv (counter st) st"
  by (simp add: dedup_inv_def)

lemma dedup_inv_create:
  assumes "dedup_inv c0 st"
  shows "dedup_inv c0 (snd (create_local_blood_cavity_definition st loc))"
proof (cases "query_subjects (graph st) isPartOf loc")
  case (Cons s rest)
  with assms show ?thesis by (simp add: create_found)
next
  case Nil
  let ?l = "local_uri (counter st + 1)"
  let ?st = "st\<lparr>counter := counter st + 1,
        graph := graph_add (graph_add (graph st) (?l, bqbiol_is, BLOOD_URI)) (?l, isPartOf, loc)\<rparr>"
  have none: "(s, isPartOf, loc) \<notin> set (graph st)" for s
    using Nil by (simp add: query_subjects_empty_iff)
  have old: "\<exists>n. c0 < n \<and> n \<le> counter st \<and> s = local_uri n"
    if "(s, p, ob) \<in> set (graph st)" "p = bqbiol_is \<or> p = isPartOf" for s p ob
    using assms that unfolding dedup_inv_def by blast
  have fresh: "(?l, p, ob) \<notin> set (graph st)" if "p = bqbiol_is \<or> p = isPartOf" for p ob
  proof
    assume "(?l, p, ob) \<in> set (graph st)"
    from old [OF this that] show False by auto
  qed
  have g: "set (graph ?st) = insert (?l, isPartOf, loc) (insert (?l, bqbiol_is, BLOOD_URI) (set (graph st)))"
    by simp
  have 1: "c0 \<le> counter ?st"
    using assms by (simp add: dedup_inv_def)
  have 2: "\<exists>n. c0 < n \<and> n \<le> counter ?st \<and> s = local_uri n"
    if "(s, p, ob) \<in> set (graph ?st)" "p = bqbiol_is \<or> p = isPartOf" for s p ob
  proof (cases "(s, p, ob) \<in> set (graph st)")
    case True
    from old [OF True that(2)] show ?thesis by auto
  next
    case False
    with that(1) have "s = ?l" unfolding g by auto
    with 1 assms show ?thesis by (auto simp: dedup_inv_def)
  qed
  have 3: "(s, bqbiol_is, BLOOD_URI) \<in> set (graph ?st)"
    if "(s, isPartOf, l') \<in> set (graph ?st)" for s l'
  proof (cases "(s, isPartOf, l') \<in> set (graph st)")
    case True
    with assms have "(s, bqbiol_is, BLOOD_URI) \<in> set (graph st)"
      unfolding dedup_inv_def by blast
    then show ?thesis unfolding g by simp
  next
    case False
    with that have "s = ?l" unfolding g by auto
    then show ?thesis unfolding g by simp
  qed
  have 4: "s1 = s2"
    if "(s1, isPartOf, l') \<in> set (graph ?st)" "(s2, isPartOf, l') \<in> set (graph ?st)" for s1 s2 l'
  proof (cases "l' = loc")
    case True
    with that none show ?thesis unfolding g by auto
  next
    case False
    with that have "(s1, isPartOf, l') \<in> set (graph st)" "(s2, isPartOf, l') \<in> set (graph st)"
      unfolding g by auto
    with assms show ?thesis unfolding dedup_inv_def by blast
  qed
  have 5: "l1 = l2"
    if "(s, isPartOf, l1) \<in> set (graph ?st)" "(s, isPartOf, l2) \<in> set (graph ?st)" for s l1 l2
  proof (cases "s = ?l")
    case True
    with that fresh [of isPartOf] show ?thesis unfolding g by auto
  next
    case False
    with that have "(s, isPartOf, l1) \<in> set (graph st)" "(s, isPartOf, l2) \<in> set (graph st)"
      unfolding g by auto
    with assms show ?thesis unfolding dedup_inv_def by blast
  qed
  have "dedup_inv c0 ?st"
    unfolding dedup_inv_def using 1 2 3 4 5 by blast
  then show ?thesis by (simp add: create_mint [OF Nil])
qed

lemma dedup_inv_add_other:
  assumes "dedup_inv c0 st" "p \<noteq> bqbiol_is" "p \<noteq> isPartOf"
  shows "dedup_inv c0 (st\<lparr>graph := graph_add (graph st) (s, p, ob)\<rparr>)"
  using assms unfolding dedup_inv_def by (simp; blast)

lemma dedup_inv_cong:
  "graph st' = graph st \<Longrightarrow> counter st' = counter st \<Longrightarrow> dedup_inv c0 st' = dedup_inv c0 st"
  by (simp add: dedup_inv_def)

lemma dedup_inv_run_call:
  assumes "dedup_inv c0 st"
  shows "dedup_inv c0 (run_call st c)"
proof -
  let ?r = "create_local_blood_cavity_definition st (call_location c)"
  let ?st1 = "snd ?r"
  let ?st2 = "?st1\<lparr>graph := graph_add (graph ?st1) (call_uri c, isPropertyOf, fst ?r)\<rparr>"
  let ?st3 = "?st2\<lparr>graph := graph_add (graph ?st2) (call_uri c, isVersionOf, call_term c)\<rparr>"
  from assms have "dedup_inv c0 ?st1" by (rule dedup_inv_create)
  then have "dedup_inv c0 ?st2" by (rule dedup_inv_add_other) simp_all
  then have "dedup_inv c0 ?st3" by (rule dedup_inv_add_other) simp_all
  moreover have "graph (run_call st c) = graph ?st3" "counter (run_call st c) = counter ?st3"
    by (simp_all add: run_call_graph run_call_counter Let_def)
  ultimately show ?thesis
    using dedup_inv_cong [of "run_call st c" ?st3 c0] by simp
qed

lemma dedup_inv_run_calls: "dedup_inv c0 st \<Longrightarrow> dedup_inv c0 (run_calls st cs)"
  by (induction cs rule: rev_induct) (simp_all add: dedup_inv_run_call)

lemma run_from_empty:
  "graph st0 = [] \<Longrightarrow> dedup_inv (counter st0) (run_calls st0 cs)"
  by (intro dedup_inv_run_calls dedup_inv_init)

text \<open>A subject that is part of a location is what the deduplicator returns for it.\<close>

lemma dedup_inv_reuse:
  assumes "dedup_inv c0 st" "(s, isPartOf, loc) \<in> set (graph st)"
  shows "create_local_blood_cavity_definition st loc = (s, st)"
proof -
  from assms(2) have "s \<in> set (query_subjects (graph st) isPartOf loc)"
    by (simp add: set_query_subjects)
  then obtain s' rest where q: "query_subjects (graph st) isPartOf loc = s' # rest"
    by (cases "query_subjects (graph st) isPartOf loc") auto
  then have "s' \<in> set (query_subjects (graph st) isPartOf loc)" by simp
  then have "(s', isPartOf, loc) \<in> set (graph st)" by (simp add: set_query_subjects)
  with assms have "s' = s" unfolding dedup_inv_def by blast
  with create_found [OF q] show ?thesis by simp
qed

lemma create_returns_part:
  assumes "create_local_blood_cavity_definition st loc = (l, st1)"
  shows "(l, isPartOf, loc) \<in> set (graph st1)"
proof -
  from create_then_query [OF assms] obtain rest
    where "query_subjects (graph st1) isPartOf loc = l # rest" ..
  then have "l \<in> set (query_subjects (graph st1) isPartOf loc)" by simp
  then show ?thesis by (simp add: set_query_subjects)
qed

lemma run_call_annotated:
  "\<exists>l. (call_uri c, isPropertyOf, l) \<in> set (graph (run_call st c)) \<and>
       (l, isPartOf, call_location c) \<in> set (graph (run_call st c)) \<and>
       (call_uri c, isVersionOf, call_term c) \<in> set (graph (run_call st c))"
proof -
  obtain l st1 where r: "create_local_blood_cavity_definition st (call_location c) = (l, st1)"
    by force
  from create_returns_part [OF r] show ?thesis
    by (intro exI [of _ l]) (simp add: run_call_graph r)
qed

lemma run_calls_annotated:
  assumes "c \<in> set cs"
  shows "\<exists>l. (call_uri c, isPropertyOf, l) \<in> set (graph (run_calls st cs)) \<and>
       (l, isPartOf, call_location c) \<in> set (graph (run_calls st cs)) \<and>
       (call_uri c, isVersionOf, call_term c) \<in> set (graph (run_calls st cs))"
  using assms
proof (induction cs rule: rev_induct)
  case Nil
  then show ?case by simp
next
  case (snoc x xs)
  show ?case
  proof (cases "c = x")
    case True
    with run_call_annotated [of x "run_calls st xs"] show ?thesis by simp
  next
    case False
    with snoc obtain l where
      "(call_uri c, isPropertyOf, l) \<in> set (graph (run_calls st xs))"
      "(l, isPartOf, call_location c) \<in> set (graph (run_calls st xs))"
      "(call_uri c, isVersionOf, call_term c) \<in> set (graph (run_calls st xs))"
      by auto
    with run_call_graph_mono [of "run_calls st xs" x] show ?thesis
      by (intro exI [of _ l]) auto
  qed
qed

lemma run_calls_counter_mono: "counter st \<le> counter (run_calls st cs)"
proof (induction cs rule: rev_induct)
  case Nil
  show ?case by simp
next
  case (snoc c cs)
  with create_counter_mono [of "run_calls st cs" "call_location c"] show ?case
    by (simp add: run_call_counter)
qed

subsection \<open>The stricter lookup\<close>

lemma dedup_inv_strict_query:
  assumes "dedup_inv c0 st"
  shows "query_blood_subjects (graph st) loc = query_subjects (graph st) isPartOf loc"
proof -
  have "filter (\<lambda>t. fst (snd t) = isPartOf \<and> snd (snd t) = loc
                          \<and> (fst t, bqbiol_is, BLOOD_URI) \<in> set (graph st)) (graph st)
      = filter (\<lambda>t. fst (snd t) = isPartOf \<and> snd (snd t) = loc) (graph st)"
  proof (rule filter_cong [OF refl])
    fix t assume m: "t \<in> set (graph st)"
    obtain s p ob where t: "t = (s, p, ob)" by (cases t) auto
    from assms m have "(s, bqbiol_is, BLOOD_URI) \<in> set (graph st)" if "p = isPartOf"
      using that unfolding dedup_inv_def t by blast
    then show "(fst (snd t) = isPartOf \<and> snd (snd t) = loc
                          \<and> (fst t, bqbiol_is, BLOOD_URI) \<in> set (graph st))
       = (fst (snd t) = isPartOf \<and> snd (snd t) = loc)"
      unfolding t by auto
  qed
  then show ?thesis
    by (simp add: query_blood_subjects_def query_subjects_def)
qed

lemma known_predicates_create:
  "known_predicates st \<Longrightarrow>
   known_predicates (snd (create_local_blood_cavity_definition st loc))"
  by (cases "query_subjects (graph st) isPartOf loc")
     (auto simp: known_predicates_def create_found create_mint)

lemma known_predicates_run_call:
  assumes "known_predicates st"
  shows "known_predicates (run_call st c)"
  using known_predicates_create [OF assms, of "call_location c"]
  by (auto simp: known_predicates_def run_call_graph Let_def)

lemma known_predicates_run_calls:
  "graph st = [] \<Longrightarrow> known_predicates (run_calls st cs)"
proof (induction cs rule: rev_induct)
  case Nil
  then show ?case by (simp add: known_predicates_def)
next
  case (snoc c cs)
  then show ?case by (simp add: known_predicates_run_call)
qed

lemma model_uri_not_local: "model_uri cellml_file model_id \<noteq> local_uri n"
  by (simp add: model_uri_def local_uri_def cellml_file_def uri_defs)

subsection \<open>Renumbering the local nodes\<close>

lemma shift_local_local [simp]: "shift_local d (local_uri n) = local_uri (n + d)"
  by (simp add: shift_local_def inj_local_uri)

lemma shift_local_other: "(\<And>n. u \<noteq> local_uri n) \<Longrightarrow> shift_local d u = u"
  by (auto simp: shift_local_def)

lemma inj_shift_local: "inj (shift_local d)"
proof (rule injI)
  fix u v assume e: "shift_local d u = shift_local d v"
  show "u = v"
  proof (cases "u \<in> range local_uri")
    case True
    then obtain a where a: "u = local_uri a" by auto
    show ?thesis
    proof (cases "v \<in> range local_uri")
      case True
      then obtain b where "v = local_uri b" by auto
      with a e show ?thesis by simp
    next
      case False
      with a e show ?thesis by (auto simp: shift_local_def)
    qed
  next
    case u: False
    show ?thesis
    proof (cases "v \<in> range local_uri")
      case True
      then obtain b where "v = local_uri b" by auto
      with u e show ?thesis by (auto simp: shift_local_def)
    next
      case False
      with u e show ?thesis by (simp add: shift_local_def)
    qed
  qed
qed

lemma shift_local_eq_iff [simp]: "shift_local d u = shift_local d v \<longleftrightarrow> u = v"
  using inj_shift_local [of d] by (auto dest: injD)

lemma inj_shift_triple: "inj (shift_triple d)"
  by (rule injI) (auto simp: shift_triple_def prod_eq_iff)

lemma shift_triple_simp [simp]:
  "shift_triple d (s, p, ob) = (shift_local d s, shift_local d p, shift_local d ob)"
  by (simp add: shift_triple_def)

lemma graph_add_map:
  assumes "inj f"
  shows "graph_add (map f g) (f t) = map f (graph_add g t)"
  using assms by (auto simp: graph_add_def dest: injD)

lemma query_subjects_shift:
  assumes "shift_local d p = p" "shift_local d ob = ob"
  shows "query_subjects (map (shift_triple d) g) p ob = map (shift_local d) (query_subjects g p ob)"
proof -
  have "(fst (snd (shift_triple d t)) = p \<and> snd (snd (shift_triple d t)) = ob)
      = (fst (snd t) = p \<and> snd (snd t) = ob)" for t
  proof -
    have "(shift_local d (fst (snd t)) = shift_local d p \<and>
           shift_local d (snd (snd t)) = shift_local d ob)
      = (fst (snd t) = p \<and> snd (snd t) = ob)"
      by simp
    then show ?thesis by (simp add: shift_triple_def assms)
  qed
  then show ?thesis
    by (simp add: query_subjects_def filter_map comp_def shift_triple_def)
qed

lemma fixed_uris [simp]:
  "shift_local d bqbiol_is = bqbiol_is" "shift_local d isPartOf = isPartOf"
  "shift_local d isPropertyOf = isPropertyOf" "shift_local d isVersionOf = isVersionOf"
  "shift_local d BLOOD_URI = BLOOD_URI" "shift_local d VOLUME_URI = VOLUME_URI"
  "shift_local d PRESSURE_URI = PRESSURE_URI"
  "shift_local d (model_uri cellml_file model_id) = model_uri cellml_file model_id"
  by (rule shift_local_other, simp add: local_uri_def model_uri_def cellml_file_def uri_defs)+

lemma cavity_uri_fixed [simp]: "shift_local d (cavity_uri_of model_id) = cavity_uri_of model_id"
  by (rule shift_local_other)
     (simp add: cavity_uri_of_def map_to_uberon_cavity_def local_uri_def uri_defs
        split: option.splits)

lemma sim_create:
  assumes "sim d st1 st2" "shift_local d loc = loc"
  shows "fst (create_local_blood_cavity_definition st2 loc) =
           shift_local d (fst (create_local_blood_cavity_definition st1 loc)) \<and>
         sim d (snd (create_local_blood_cavity_definition st1 loc))
               (snd (create_local_blood_cavity_definition st2 loc))"
proof -
  from assms have q: "query_subjects (graph st2) isPartOf loc =
      map (shift_local d) (query_subjects (graph st1) isPartOf loc)"
    by (simp add: sim_def query_subjects_shift)
  show ?thesis
  proof (cases "query_subjects (graph st1) isPartOf loc")
    case (Cons s rest)
    with q have "query_subjects (graph st2) isPartOf loc = shift_local d s # map (shift_local d) rest"
      by simp
    with Cons assms(1) show ?thesis
      by (simp add: create_found)
  next
    case Nil
    with q have n2: "query_subjects (graph st2) isPartOf loc = []" by simp
    let ?l = "local_uri (counter st1 + 1)"
    have "graph_add (graph_add (map (shift_triple d) (graph st1))
             (shift_triple d (?l, bqbiol_is, BLOOD_URI)))
             (shift_triple d (?l, isPartOf, loc))
        = map (shift_triple d) (graph_add (graph_add (graph st1) (?l, bqbiol_is, BLOOD_URI))
             (?l, isPartOf, loc))"
      by (simp only: graph_add_map [OF inj_shift_triple])
    with assms show ?thesis
      by (simp add: create_mint [OF Nil] create_mint [OF n2] sim_def add.commute add.left_commute)
  qed
qed

lemma sim_run_call:
  assumes "sim d st1 st2" "shift_local d (call_uri c) = call_uri c"
  shows "sim d (run_call st1 c) (run_call st2 c)"
proof -
  let ?r1 = "create_local_blood_cavity_definition st1 (call_location c)"
  let ?r2 = "create_local_blood_cavity_definition st2 (call_location c)"
  have loc: "shift_local d (call_location c) = call_location c"
    by (cases c) simp_all
  have tm: "shift_local d (call_term c) = call_term c"
    by (cases c) simp_all
  from sim_create [OF assms(1) loc]
  have l: "fst ?r2 = shift_local d (fst ?r1)" and s: "sim d (snd ?r1) (snd ?r2)"
    by simp_all
  have "graph_add (graph_add (map (shift_triple d) (graph (snd ?r1)))
             (shift_triple d (call_uri c, isPropertyOf, fst ?r1)))
             (shift_triple d (call_uri c, isVersionOf, call_term c))
        = map (shift_triple d) (graph_add (graph_add (graph (snd ?r1))
             (call_uri c, isPropertyOf, fst ?r1)) (call_uri c, isVersionOf, call_term c))"
    by (simp only: graph_add_map [OF inj_shift_triple])
  with l s assms(2) tm show ?thesis
    by (simp add: sim_def run_call_graph run_call_counter Let_def)
qed

lemma sim_run_calls:
  assumes "sim d st1 st2" "\<forall>c \<in> set cs. shift_local d (call_uri c) = call_uri c"
  shows "sim d (run_calls st1 cs) (run_calls st2 cs)"
  using assms(2)
proof (induction cs rule: rev_induct)
  case Nil
  with assms(1) show ?case by simp
next
  case (snoc c cs)
  then show ?case by (simp add: sim_run_call)
qed

lemmas run_eval = run_calls_def annotate_model_ids_def initial_state_def
  create_blood_volume_annotation_def create_blood_pressure_annotation_def hd_split_str
  map_to_uberon_cavity_def cavity_map_def create_local_blood_cavity_definition_def
  query_subjects_def get_local_id_def graph_add_def cellml_file_def str_int_def
  str_nat.simps digit_char_def uri_defs Let_def

lemma example_run:
  "annotate_model_ids initial_state
     \<lparr>volume_ids = [''lv.blood.volume'', ''unknown-cavity.blood.volume''],
      pressure_ids = [''lv.blood.pressure''], flow_ids = []\<rparr>
     = \<lparr>graph =
          [(''http://omex-library.org/annotations.ttl#local-node-1025'',
            ''http://biomodels.net/biology-qualifiers/is'',
            ''http://purl.obolibrary.org/obo/UBERON_0000178''),
           (''http://omex-library.org/annotations.ttl#local-node-1025'',
            ''http://biomodels.net/biology-qualifiers/isPartOf'',
            ''http://purl.obolibrary.org/obo/UBERON_0016514''),
           (''http://omex-library.org/models/cvs-model.cellml#lv.blood.volume'',
            ''http://biomodels.net/biology-qualifiers/isPropertyOf'',
            ''http://omex-library.org/annotations.ttl#local-node-1025''),
           (''http://omex-library.org/models/cvs-model.cellml#lv.blood.volume'',
            ''http://biomodels.net/biology-qualifiers/isVersionOf'',
            ''http://bhi.washington.edu/OPB#OPB_00154''),
           (''http://omex-library.org/annotations.ttl#local-node-1026'',
            ''http://biomodels.net/biology-qualifiers/is'',
            ''http://purl.obolibrary.org/obo/UBERON_0000178''),
           (''http://omex-library.org/annotations.ttl#local-node-1026'',
            ''http://biomodels.net/biology-qualifiers/isPartOf'',
            ''http://purl.obolibrary.org/obo/UBERON_0001062''),
           (''http://omex-library.org/models/cvs-model.cellml#unknown-cavity.blood.volume'',
            ''http://biomodels.net/biology-qualifiers/isPropertyOf'',
            ''http://omex-library.org/annotations.ttl#local-node-1026''),
           (''http://omex-library.org/models/cvs-model.cellml#unknown-cavity.blood.volume'',
            ''http://biomodels.net/biology-qualifiers/isVersionOf'',
            ''http://bhi.washington.edu/OPB#OPB_00154''),
           (''http://omex-library.org/models/cvs-model.cellml#lv.blood.pressure'',
            ''http://biomodels.net/biology-qualifiers/isPropertyOf'',
            ''http://omex-library.org/annotations.ttl#local-node-1025''),
           (''http://omex-library.org/models/cvs-model.cellml#lv.blood.pressure'',
            ''http://biomodels.net/biology-qualifiers/isVersionOf'',
            ''http://bhi.washington.edu/OPB#OPB_00509'')],
        counter = 1026,
        stdout = [''Unknown cavity abbreviation: unknown-cavity'']\<rparr>"
  by (simp add: run_eval)

lemma example_first_call:
  "run_calls initial_state [Volume_call ''models/cvs-model.cellml'' ''lv.blood.volume'']
     = \<lparr>graph =
          [(''http://omex-library.org/annotations.ttl#local-node-1025'',
            ''http://biomodels.net/biology-qualifiers/is'',
            ''http://purl.obolibrary.org/obo/UBERON_0000178''),
           (''http://omex-library.org/annotations.ttl#local-node-1025'',
            ''http://biomodels.net/biology-qualifiers/isPartOf'',
            ''http://purl.obolibrary.org/obo/UBERON_0016514''),
           (''http://omex-library.org/models/cvs-model.cellml#lv.blood.volume'',
            ''http://biomodels.net/biology-qualifiers/isPropertyOf'',
            ''http://omex-library.org/annotations.ttl#local-node-1025''),
           (''http://omex-library.org/models/cvs-model.cellml#lv.blood.volume'',
            ''http://biomodels.net/biology-qualifiers/isVersionOf'',
            ''http://bhi.washington.edu/OPB#OPB_00154'')],
        counter = 1025, stdout = []\<rparr>"
  by (simp add: run_eval)

section \<open>Deduplication\<close>

text \<open>
  C1. Take any run from an empty graph (any sequence of calls of the two emitters, from
  any value of the counter), and let \<open>st\<close> be a state it reaches. In the graph of \<open>st\<close>
  no two distinct subjects are both blood and part of the same location. And a subject
  that is blood and part of a location in \<open>st\<close> is what
  \<^verbatim>\<open>create_local_blood_cavity_definition\<close> returns for that location in every state
  \<open>st'\<close> the run reaches from \<open>st\<close>, leaving that state as it is.
\<close>

theorem deduplication_invariant:
  assumes "graph st0 = []" and "st = run_calls st0 cs" and "st' = run_calls st cs'"
  shows "(\<forall>s1 s2 loc.
            (s1, bqbiol_is, BLOOD_URI) \<in> set (graph st) \<and> (s1, isPartOf, loc) \<in> set (graph st) \<and>
            (s2, bqbiol_is, BLOOD_URI) \<in> set (graph st) \<and> (s2, isPartOf, loc) \<in> set (graph st)
            \<longrightarrow> s1 = s2) \<and>
         (\<forall>s loc.
            (s, bqbiol_is, BLOOD_URI) \<in> set (graph st) \<and> (s, isPartOf, loc) \<in> set (graph st)
            \<longrightarrow> create_local_blood_cavity_definition st' loc = (s, st'))"
proof -
  from assms have i: "dedup_inv (counter st0) st"
    by (simp add: run_from_empty)
  from assms have i': "dedup_inv (counter st0) st'"
    by (simp add: run_from_empty flip: run_calls_append)
  have m: "set (graph st) \<subseteq> set (graph st')"
    unfolding assms(3) by (rule run_calls_graph_mono)
  have "s1 = s2" if "(s1, isPartOf, loc) \<in> set (graph st)" "(s2, isPartOf, loc) \<in> set (graph st)"
    for s1 s2 loc
    using i that unfolding dedup_inv_def by blast
  moreover have "create_local_blood_cavity_definition st' loc = (s, st')"
    if "(s, isPartOf, loc) \<in> set (graph st)" for s loc
    using dedup_inv_reuse [OF i'] that m by blast
  ultimately show ?thesis by blast
qed

theorem deduplication_invariant_witness:
  "create_local_blood_cavity_definition
     (run_calls (run_calls initial_state
        [Volume_call ''models/cvs-model.cellml'' ''lv.blood.volume''])
        [Pressure_call ''models/cvs-model.cellml'' ''lv.blood.pressure''])
     ''http://purl.obolibrary.org/obo/UBERON_0016514''
   = (''http://omex-library.org/annotations.ttl#local-node-1025'',
      run_calls (run_calls initial_state
        [Volume_call ''models/cvs-model.cellml'' ''lv.blood.volume''])
        [Pressure_call ''models/cvs-model.cellml'' ''lv.blood.pressure''])"
proof -
  let ?st = "run_calls initial_state [Volume_call ''models/cvs-model.cellml'' ''lv.blood.volume'']"
  let ?st' = "run_calls ?st [Pressure_call ''models/cvs-model.cellml'' ''lv.blood.pressure'']"
  let ?l = "''http://omex-library.org/annotations.ttl#local-node-1025''"
  let ?loc = "''http://purl.obolibrary.org/obo/UBERON_0016514''"
  have e: "graph initial_state = []" by (simp add: initial_state_def)
  have m: "(?l, bqbiol_is, BLOOD_URI) \<in> set (graph ?st) \<and> (?l, isPartOf, ?loc) \<in> set (graph ?st)"
    by (simp add: example_first_call) (simp add: uri_defs)
  from deduplication_invariant [OF e refl refl, of "[Volume_call ''models/cvs-model.cellml'' ''lv.blood.volume'']"
      "[Pressure_call ''models/cvs-model.cellml'' ''lv.blood.pressure'']"]
  have "(?l, bqbiol_is, BLOOD_URI) \<in> set (graph ?st) \<and> (?l, isPartOf, ?loc) \<in> set (graph ?st)
            \<longrightarrow> create_local_blood_cavity_definition ?st' ?loc = (?l, ?st')"
    by blast
  with m show ?thesis by blast
qed

section \<open>The end-to-end example\<close>

text \<open>
  C2. A document whose three \<^verbatim>\<open>cmeta:id\<close> attributes are \<^verbatim>\<open>lv.blood.volume\<close>,
  \<^verbatim>\<open>lv.blood.pressure\<close> and \<^verbatim>\<open>unknown-cavity.blood.volume\<close> is classified without a
  diagnostic, and the annotation loops, run on the result in the initial state (empty
  graph, counter 1024), end in the state written out below: the graph has ten triples.
  The local node 1025 is blood and part of the left ventricle's luminal space (UBERON
  0016514), and it is the only subject with an \<^verbatim>\<open>isPartOf\<close> triple to that term; both
  \<^verbatim>\<open>lv\<close> variables are properties of it. The first and the third ID are versions of the
  volume term, the second of the pressure term. The local node 1026 is the one further
  local entity: it is blood and part of the fallback term UBERON 0001062, and the
  \<^verbatim>\<open>unknown-cavity\<close> variable is a property of it. One line is printed, the warning
  about the unknown cavity.
\<close>

theorem end_to_end_example:
  "get_model_ids
     (Element []
        [Element [(''{http://www.cellml.org/metadata/1.0#}id'', ''lv.blood.volume'')] [],
         Element [(''{http://www.cellml.org/metadata/1.0#}id'', ''lv.blood.pressure'')] [],
         Element [(''{http://www.cellml.org/metadata/1.0#}id'',
                   ''unknown-cavity.blood.volume'')] []]) []
     = (\<lparr>volume_ids = [''lv.blood.volume'', ''unknown-cavity.blood.volume''],
          pressure_ids = [''lv.blood.pressure''], flow_ids = []\<rparr>, []) \<and>
   annotate_model_ids initial_state
     \<lparr>volume_ids = [''lv.blood.volume'', ''unknown-cavity.blood.volume''],
      pressure_ids = [''lv.blood.pressure''], flow_ids = []\<rparr>
     = \<lparr>graph =
          [(''http://omex-library.org/annotations.ttl#local-node-1025'',
            ''http://biomodels.net/biology-qualifiers/is'',
            ''http://purl.obolibrary.org/obo/UBERON_0000178''),
           (''http://omex-library.org/annotations.ttl#local-node-1025'',
            ''http://biomodels.net/biology-qualifiers/isPartOf'',
            ''http://purl.obolibrary.org/obo/UBERON_0016514''),
           (''http://omex-library.org/models/cvs-model.cellml#lv.blood.volume'',
            ''http://biomodels.net/biology-qualifiers/isPropertyOf'',
            ''http://omex-library.org/annotations.ttl#local-node-1025''),
           (''http://omex-library.org/models/cvs-model.cellml#lv.blood.volume'',
            ''http://biomodels.net/biology-qualifiers/isVersionOf'',
            ''http://bhi.washington.edu/OPB#OPB_00154''),
           (''http://omex-library.org/annotations.ttl#local-node-1026'',
            ''http://biomodels.net/biology-qualifiers/is'',
            ''http://purl.obolibrary.org/obo/UBERON_0000178''),
           (''http://omex-library.org/annotations.ttl#local-node-1026'',
            ''http://biomodels.net/biology-qualifiers/isPartOf'',
            ''http://purl.obolibrary.org/obo/UBERON_0001062''),
           (''http://omex-library.org/models/cvs-model.cellml#unknown-cavity.blood.volume'',
            ''http://biomodels.net/biology-qualifiers/isPropertyOf'',
            ''http://omex-library.org/annotations.ttl#local-node-1026''),
           (''http://omex-library.org/models/cvs-model.cellml#unknown-cavity.blood.volume'',
            ''http://biomodels.net/biology-qualifiers/isVersionOf'',
            ''http://bhi.washington.edu/OPB#OPB_00154''),
           (''http://omex-library.org/models/cvs-model.cellml#lv.blood.pressure'',
            ''http://biomodels.net/biology-qualifiers/isPropertyOf'',
            ''http://omex-library.org/annotations.ttl#local-node-1025''),
           (''http://omex-library.org/models/cvs-model.cellml#lv.blood.pressure'',
            ''http://biomodels.net/biology-qualifiers/isVersionOf'',
            ''http://bhi.washington.edu/OPB#OPB_00509'')],
        counter = 1026,
        stdout = [''Unknown cavity abbreviation: unknown-cavity'']\<rparr>"
proof -
  have "get_model_ids
     (Element []
        [Element [(''{http://www.cellml.org/metadata/1.0#}id'', ''lv.blood.volume'')] [],
         Element [(''{http://www.cellml.org/metadata/1.0#}id'', ''lv.blood.pressure'')] [],
         Element [(''{http://www.cellml.org/metadata/1.0#}id'',
                   ''unknown-cavity.blood.volume'')] []]) []
     = (\<lparr>volume_ids = [''lv.blood.volume'', ''unknown-cavity.blood.volume''],
          pressure_ids = [''lv.blood.pressure''], flow_ids = []\<rparr>, [])"
    by (simp add: get_model_ids_def qualified_name_def endswith_def)
  with example_run show ?thesis
    by (simp only: simp_thms)
qed

section \<open>The ID extractor classifies by suffix\<close>

text \<open>
  C3. Let \<open>attrs\<close> be the attribute values that \<^verbatim>\<open>get_model_ids\<close> extracts, in document
  order. The volume bucket holds exactly the values ending in \<^verbatim>\<open>.blood.volume\<close>, the
  pressure bucket exactly those ending in \<^verbatim>\<open>.blood.pressure\<close>, the flow bucket exactly
  those ending in \<^verbatim>\<open>.blood.flow\<close>; no value is in two buckets; and the lines printed
  are one \<^verbatim>\<open>Unknown ID\<close> line for each extracted value that ends in none of the three
  suffixes (which therefore is in no bucket), in document order.
\<close>

theorem get_model_ids_classification:
  assumes "get_model_ids root out = (ids, out')"
    and "attrs = collect_attributes (iter root) []"
  shows "volume_ids ids = filter (\<lambda>v. endswith v ''.blood.volume'') attrs \<and>
         pressure_ids ids = filter (\<lambda>v. endswith v ''.blood.pressure'') attrs \<and>
         flow_ids ids = filter (\<lambda>v. endswith v ''.blood.flow'') attrs \<and>
         set (volume_ids ids) \<inter> set (pressure_ids ids) = {} \<and>
         set (volume_ids ids) \<inter> set (flow_ids ids) = {} \<and>
         set (pressure_ids ids) \<inter> set (flow_ids ids) = {} \<and>
         out' = out @ map (\<lambda>v. ''Unknown ID: '' @ v)
           (filter (\<lambda>v. \<not> endswith v ''.blood.volume'' \<and> \<not> endswith v ''.blood.pressure''
                        \<and> \<not> endswith v ''.blood.flow'') attrs)"
proof -
  have "ids = \<lparr>volume_ids = filter (\<lambda>v. endswith v ''.blood.volume'') attrs,
       pressure_ids = filter (\<lambda>v. endswith v ''.blood.pressure'') attrs,
       flow_ids = filter (\<lambda>v. endswith v ''.blood.flow'') attrs\<rparr>"
    and o: "out' = out @ map (\<lambda>v. ''Unknown ID: '' @ v)
           (filter (\<lambda>v. \<not> endswith v ''.blood.volume'' \<and> \<not> endswith v ''.blood.pressure''
                        \<and> \<not> endswith v ''.blood.flow'') attrs)"
    using assms by (auto simp: get_model_ids_def classify_loop_filter Let_def)
  then have v: "volume_ids ids = filter (\<lambda>v. endswith v ''.blood.volume'') attrs"
    and p: "pressure_ids ids = filter (\<lambda>v. endswith v ''.blood.pressure'') attrs"
    and f: "flow_ids ids = filter (\<lambda>v. endswith v ''.blood.flow'') attrs"
    by simp_all
  have "set (volume_ids ids) \<inter> set (pressure_ids ids) = {}"
    "set (volume_ids ids) \<inter> set (flow_ids ids) = {}"
    "set (pressure_ids ids) \<inter> set (flow_ids ids) = {}"
    unfolding v p f using volume_not_pressure volume_not_flow pressure_not_flow by auto
  with v p f o show ?thesis by simp
qed

theorem get_model_ids_classification_witness:
  "get_model_ids
     (Element [] [Element [(''{http://www.cellml.org/metadata/1.0#}id'', ''lv.blood.volume'')] [],
        Element [(''name'', ''x'')] [Element [(''{http://www.cellml.org/metadata/1.0#}id'', ''aa.blood.flow'')] []],
        Element [(''{http://www.cellml.org/metadata/1.0#}id'', ''heart'')] [],
        Element [(''{http://www.cellml.org/metadata/1.0#}id'', ''heart'')] [],
        Element [(''{http://www.cellml.org/metadata/1.0#}id'', ''ra.blood.pressure'')] []]) []
   = (\<lparr>volume_ids = [''lv.blood.volume''], pressure_ids = [''ra.blood.pressure''],
        flow_ids = [''aa.blood.flow'']\<rparr>,
      [''Unknown ID: heart'', ''Unknown ID: heart''])"
  (is "get_model_ids ?root [] = _")
proof -
  obtain ids out' where g: "get_model_ids ?root [] = (ids, out')"
    by (cases "get_model_ids ?root []")
  have a: "collect_attributes (iter ?root) [] =
     [''lv.blood.volume'', ''aa.blood.flow'', ''heart'', ''heart'', ''ra.blood.pressure'']"
    by (simp add: qualified_name_def)
  have "ids = \<lparr>volume_ids = [''lv.blood.volume''], pressure_ids = [''ra.blood.pressure''],
        flow_ids = [''aa.blood.flow'']\<rparr> \<and> out' = [''Unknown ID: heart'', ''Unknown ID: heart'']"
    using get_model_ids_classification [OF g a [symmetric]]
    by (simp add: endswith_def)
  with g show ?thesis by simp
qed

section \<open>The cavity resolver\<close>

text \<open>
  C4. The cavity table has 19 entries with distinct keys. For every entry
  \<open>(abbr, code)\<close> of the table the resolver returns the UBERON identifier of \<open>code\<close>
  and prints nothing; for every abbreviation that is no key of the table it returns
  the identifier UBERON 0001062 and prints one warning naming the abbreviation. It
  returns a result on every input.
\<close>

theorem map_to_uberon_cavity_total:
  "length cavity_map = 19 \<and> distinct (map fst cavity_map) \<and>
   ((abbr, code) \<in> set cavity_map \<longrightarrow>
      map_to_uberon_cavity abbr out = (''http://purl.obolibrary.org/obo/UBERON_'' @ code, out)) \<and>
   (abbr \<notin> fst ` set cavity_map \<longrightarrow>
      map_to_uberon_cavity abbr out =
        (''http://purl.obolibrary.org/obo/UBERON_0001062'',
         out @ [''Unknown cavity abbreviation: '' @ abbr]))"
proof -
  have d: "distinct (map fst cavity_map)"
    by (simp add: cavity_map_def)
  have l: "length cavity_map = 19"
    by (simp add: cavity_map_def)
  have k: "map_to_uberon_cavity abbr out = (''http://purl.obolibrary.org/obo/UBERON_'' @ code, out)"
    if "(abbr, code) \<in> set cavity_map"
  proof -
    from that d have "map_of cavity_map abbr = Some code"
      by (rule map_of_is_SomeI [OF _ _, rotated])
    then show ?thesis
      by (simp add: map_to_uberon_cavity_def ns_term_def UBERON_def)
  qed
  have u: "map_to_uberon_cavity abbr out =
        (''http://purl.obolibrary.org/obo/UBERON_0001062'',
         out @ [''Unknown cavity abbreviation: '' @ abbr])"
    if "abbr \<notin> fst ` set cavity_map"
  proof -
    from that have "map_of cavity_map abbr = None"
      by (simp add: map_of_eq_None_iff)
    then show ?thesis
      by (simp add: map_to_uberon_cavity_def ns_term_def UBERON_def)
  qed
  from d l k u show ?thesis by blast
qed

theorem map_to_uberon_cavity_total_witness:
  "map_to_uberon_cavity ''pulm-vein'' [] = (''http://purl.obolibrary.org/obo/UBERON_0002016'', []) \<and>
   map_to_uberon_cavity ''unknown-cavity'' [] =
     (''http://purl.obolibrary.org/obo/UBERON_0001062'',
      [''Unknown cavity abbreviation: unknown-cavity''])"
proof -
  have a: "(''pulm-vein'', ''0002016'') \<in> set cavity_map"
    by (simp add: cavity_map_def)
  have b: "''unknown-cavity'' \<notin> fst ` set cavity_map"
    by (simp add: cavity_map_def)
  from a map_to_uberon_cavity_total [of "''pulm-vein''" "''0002016''" "[]"]
  have "map_to_uberon_cavity ''pulm-vein'' [] =
     (''http://purl.obolibrary.org/obo/UBERON_0002016'', [])"
    by simp
  moreover from b map_to_uberon_cavity_total [of "''unknown-cavity''" "''0002016''" "[]"]
  have "map_to_uberon_cavity ''unknown-cavity'' [] =
     (''http://purl.obolibrary.org/obo/UBERON_0001062'',
      [''Unknown cavity abbreviation: unknown-cavity''])"
    by simp
  ultimately show ?thesis by simp
qed

section \<open>The lookup of the deduplicator\<close>

text \<open>
  C5. If any subject at all has an \<^verbatim>\<open>isPartOf\<close> triple to the location in the graph,
  whether or not that subject is blood, the query of
  \<^verbatim>\<open>create_local_blood_cavity_definition\<close> has a first row; its subject has an
  \<^verbatim>\<open>isPartOf\<close> triple to the location, and the function returns it and leaves the graph,
  the counter and the output unchanged.
\<close>

theorem lookup_matches_isPartOf_alone:
  assumes "(s, ''http://biomodels.net/biology-qualifiers/isPartOf'', cavity_uri) \<in> set (graph st)"
  shows "\<exists>subject rest.
           query_subjects (graph st) ''http://biomodels.net/biology-qualifiers/isPartOf'' cavity_uri
             = subject # rest \<and>
           (subject, ''http://biomodels.net/biology-qualifiers/isPartOf'', cavity_uri)
             \<in> set (graph st) \<and>
           create_local_blood_cavity_definition st cavity_uri = (subject, st)"
proof -
  have p: "isPartOf = ''http://biomodels.net/biology-qualifiers/isPartOf''"
    by (simp add: ns_term_def BQBIOL_def)
  from assms have "s \<in> set (query_subjects (graph st) isPartOf cavity_uri)"
    by (simp add: set_query_subjects p)
  then obtain subject rest where q: "query_subjects (graph st) isPartOf cavity_uri = subject # rest"
    by (cases "query_subjects (graph st) isPartOf cavity_uri") auto
  then have "subject \<in> set (query_subjects (graph st) isPartOf cavity_uri)"
    by simp
  then have "(subject, isPartOf, cavity_uri) \<in> set (graph st)"
    by (simp add: set_query_subjects)
  with q create_found [OF q] show ?thesis
    unfolding p by blast
qed

theorem lookup_matches_isPartOf_alone_witness:
  "create_local_blood_cavity_definition
     \<lparr>graph = [(''urn:kidney'', ''http://biomodels.net/biology-qualifiers/isPartOf'', ''urn:body''),
               (''urn:heart'', ''http://biomodels.net/biology-qualifiers/isPartOf'', ''urn:body'')],
      counter = 1024, stdout = []\<rparr> ''urn:body''
   = (''urn:kidney'',
      \<lparr>graph = [(''urn:kidney'', ''http://biomodels.net/biology-qualifiers/isPartOf'', ''urn:body''),
               (''urn:heart'', ''http://biomodels.net/biology-qualifiers/isPartOf'', ''urn:body'')],
      counter = 1024, stdout = []\<rparr>)"
  using lookup_matches_isPartOf_alone [of "''urn:heart''" "''urn:body''"
     "\<lparr>graph = [(''urn:kidney'', ''http://biomodels.net/biology-qualifiers/isPartOf'', ''urn:body''),
               (''urn:heart'', ''http://biomodels.net/biology-qualifiers/isPartOf'', ''urn:body'')],
      counter = 1024, stdout = []\<rparr>"]
  by (simp add: query_subjects_def)

section \<open>Minting a fresh local entity\<close>

text \<open>
  C6. In any state \<open>t\<close> whose graph has no subject with an \<^verbatim>\<open>isPartOf\<close> triple to the
  location, \<^verbatim>\<open>create_local_blood_cavity_definition\<close> returns the local node numbered by
  the counter plus one, leaves the counter at that number, and the triples of the graph
  afterwards are those before together with the node's \<^verbatim>\<open>is\<close> blood triple and its
  \<^verbatim>\<open>isPartOf\<close> triple to the location. In a state \<open>st\<close> that a run from an empty graph
  with the counter at 1024 or above reaches, both triples are new and are appended; the
  counter is still at 1024 or above; every subject of an \<^verbatim>\<open>isPartOf\<close> triple is a local
  node whose number exceeds 1024; and for two calls of the run whose IDs resolve to
  distinct locations the graph holds two distinct local entities, one for each variable,
  each blood and part of its own location.
\<close>

theorem fresh_entity_minting:
  assumes "graph st0 = []" and "1024 \<le> counter st0" and "st = run_calls st0 cs"
  shows "((\<forall>s. (s, isPartOf, loc) \<notin> set (graph t)) \<longrightarrow>
            fst (create_local_blood_cavity_definition t loc) = local_uri (counter t + 1) \<and>
            counter (snd (create_local_blood_cavity_definition t loc)) = counter t + 1 \<and>
            set (graph (snd (create_local_blood_cavity_definition t loc))) =
              set (graph t) \<union> {(local_uri (counter t + 1), bqbiol_is, BLOOD_URI),
                                (local_uri (counter t + 1), isPartOf, loc)}) \<and>
         ((\<forall>s. (s, isPartOf, loc) \<notin> set (graph st)) \<longrightarrow>
            graph (snd (create_local_blood_cavity_definition st loc)) =
              graph st @ [(local_uri (counter st + 1), bqbiol_is, BLOOD_URI),
                          (local_uri (counter st + 1), isPartOf, loc)]) \<and>
         1024 \<le> counter st \<and>
         (\<forall>s ob. (s, isPartOf, ob) \<in> set (graph st) \<longrightarrow>
            (\<exists>n. 1024 < n \<and> n \<le> counter st \<and> s = local_uri n)) \<and>
         (\<forall>c1 c2. c1 \<in> set cs \<and> c2 \<in> set cs \<and> call_location c1 \<noteq> call_location c2 \<longrightarrow>
            (\<exists>l1 l2. l1 \<noteq> l2 \<and>
               (call_uri c1, isPropertyOf, l1) \<in> set (graph st) \<and>
               (l1, bqbiol_is, BLOOD_URI) \<in> set (graph st) \<and>
               (l1, isPartOf, call_location c1) \<in> set (graph st) \<and>
               (call_uri c2, isPropertyOf, l2) \<in> set (graph st) \<and>
               (l2, bqbiol_is, BLOOD_URI) \<in> set (graph st) \<and>
               (l2, isPartOf, call_location c2) \<in> set (graph st)))"
proof -
  from assms have i: "dedup_inv (counter st0) st"
    by (simp add: run_from_empty)
  have a: "fst (create_local_blood_cavity_definition t loc) = local_uri (counter t + 1) \<and>
            counter (snd (create_local_blood_cavity_definition t loc)) = counter t + 1 \<and>
            set (graph (snd (create_local_blood_cavity_definition t loc))) =
              set (graph t) \<union> {(local_uri (counter t + 1), bqbiol_is, BLOOD_URI),
                                (local_uri (counter t + 1), isPartOf, loc)}"
    if "\<forall>s. (s, isPartOf, loc) \<notin> set (graph t)"
  proof -
    from that have "query_subjects (graph t) isPartOf loc = []"
      by (simp add: query_subjects_empty_iff)
    from create_mint [OF this] show ?thesis by auto
  qed
  have b: "graph (snd (create_local_blood_cavity_definition st loc)) =
              graph st @ [(local_uri (counter st + 1), bqbiol_is, BLOOD_URI),
                          (local_uri (counter st + 1), isPartOf, loc)]"
    if n: "\<forall>s. (s, isPartOf, loc) \<notin> set (graph st)"
  proof -
    from n have q: "query_subjects (graph st) isPartOf loc = []"
      by (simp add: query_subjects_empty_iff)
    have "(local_uri (counter st + 1), bqbiol_is, BLOOD_URI) \<notin> set (graph st)"
    proof
      assume "(local_uri (counter st + 1), bqbiol_is, BLOOD_URI) \<in> set (graph st)"
      with i obtain k where "k \<le> counter st" "local_uri (counter st + 1) = local_uri k"
        unfolding dedup_inv_def by blast
      then show False by simp
    qed
    with n show ?thesis
      by (simp add: create_mint [OF q] graph_add_def)
  qed
  have c: "1024 \<le> counter st"
    using assms(2) run_calls_counter_mono [of st0 cs] assms(3) by simp
  have d: "\<exists>n. 1024 < n \<and> n \<le> counter st \<and> s = local_uri n"
    if "(s, isPartOf, ob) \<in> set (graph st)" for s ob
  proof -
    from i that obtain n where "counter st0 < n" "n \<le> counter st" "s = local_uri n"
      unfolding dedup_inv_def by blast
    with assms(2) show ?thesis by (intro exI [of _ n]) simp
  qed
  have e: "\<exists>l1 l2. l1 \<noteq> l2 \<and>
               (call_uri c1, isPropertyOf, l1) \<in> set (graph st) \<and>
               (l1, bqbiol_is, BLOOD_URI) \<in> set (graph st) \<and>
               (l1, isPartOf, call_location c1) \<in> set (graph st) \<and>
               (call_uri c2, isPropertyOf, l2) \<in> set (graph st) \<and>
               (l2, bqbiol_is, BLOOD_URI) \<in> set (graph st) \<and>
               (l2, isPartOf, call_location c2) \<in> set (graph st)"
    if "c1 \<in> set cs" "c2 \<in> set cs" "call_location c1 \<noteq> call_location c2" for c1 c2
  proof -
    from run_calls_annotated [OF that(1), of st0] obtain l1 where
      l1: "(call_uri c1, isPropertyOf, l1) \<in> set (graph st)"
        "(l1, isPartOf, call_location c1) \<in> set (graph st)"
      unfolding assms(3) by blast
    from run_calls_annotated [OF that(2), of st0] obtain l2 where
      l2: "(call_uri c2, isPropertyOf, l2) \<in> set (graph st)"
        "(l2, isPartOf, call_location c2) \<in> set (graph st)"
      unfolding assms(3) by blast
    from i l1(2) l2(2) have b1: "(l1, bqbiol_is, BLOOD_URI) \<in> set (graph st)"
      and b2: "(l2, bqbiol_is, BLOOD_URI) \<in> set (graph st)"
      unfolding dedup_inv_def by blast+
    have "l1 \<noteq> l2"
    proof
      assume "l1 = l2"
      with i l1(2) l2(2) have "call_location c1 = call_location c2"
        unfolding dedup_inv_def by blast
      with that(3) show False by simp
    qed
    with l1 l2 b1 b2 show ?thesis by blast
  qed
  from a b c d e show ?thesis by blast
qed

theorem fresh_entity_minting_witness:
  "fst (create_local_blood_cavity_definition initial_state
          ''http://purl.obolibrary.org/obo/UBERON_0016514'')
     = ''http://omex-library.org/annotations.ttl#local-node-1025'' \<and>
   graph (snd (create_local_blood_cavity_definition initial_state
          ''http://purl.obolibrary.org/obo/UBERON_0016514''))
     = [(''http://omex-library.org/annotations.ttl#local-node-1025'',
         ''http://biomodels.net/biology-qualifiers/is'',
         ''http://purl.obolibrary.org/obo/UBERON_0000178''),
        (''http://omex-library.org/annotations.ttl#local-node-1025'',
         ''http://biomodels.net/biology-qualifiers/isPartOf'',
         ''http://purl.obolibrary.org/obo/UBERON_0016514'')] \<and>
   (\<exists>l1 l2. l1 \<noteq> l2 \<and>
      (''http://omex-library.org/models/cvs-model.cellml#lv.blood.volume'',
       ''http://biomodels.net/biology-qualifiers/isPropertyOf'', l1)
        \<in> set (graph (run_calls initial_state
             [Volume_call ''models/cvs-model.cellml'' ''lv.blood.volume'',
              Pressure_call ''models/cvs-model.cellml'' ''rv.blood.pressure''])) \<and>
      (''http://omex-library.org/models/cvs-model.cellml#rv.blood.pressure'',
       ''http://biomodels.net/biology-qualifiers/isPropertyOf'', l2)
        \<in> set (graph (run_calls initial_state
             [Volume_call ''models/cvs-model.cellml'' ''lv.blood.volume'',
              Pressure_call ''models/cvs-model.cellml'' ''rv.blood.pressure''])))"
proof -
  let ?c1 = "Volume_call ''models/cvs-model.cellml'' ''lv.blood.volume''"
  let ?c2 = "Pressure_call ''models/cvs-model.cellml'' ''rv.blood.pressure''"
  let ?loc = "''http://purl.obolibrary.org/obo/UBERON_0016514''"
  have e: "graph initial_state = []" and k: "1024 \<le> counter initial_state"
    by (simp_all add: initial_state_def)
  have n: "\<forall>s. (s, isPartOf, ?loc) \<notin> set (graph initial_state)"
    by (simp add: initial_state_def)
  have x: "run_calls initial_state [] = initial_state"
    by (simp add: run_calls_def)
  have d: "?c1 \<in> set [?c1, ?c2] \<and> ?c2 \<in> set [?c1, ?c2] \<and> call_location ?c1 \<noteq> call_location ?c2"
    by (simp add: cavity_uri_of_def hd_split_str map_to_uberon_cavity_def cavity_map_def
        uri_defs)
  note t = fresh_entity_minting [OF e k refl]
  from t [where cs = "[]" and loc = ?loc and t = initial_state] n
  have "fst (create_local_blood_cavity_definition initial_state ?loc) = local_uri (counter initial_state + 1)"
    and "graph (snd (create_local_blood_cavity_definition initial_state ?loc)) =
              graph initial_state @ [(local_uri (counter initial_state + 1), bqbiol_is, BLOOD_URI),
                          (local_uri (counter initial_state + 1), isPartOf, ?loc)]"
    unfolding x by blast+
  then have a: "fst (create_local_blood_cavity_definition initial_state ?loc)
       = ''http://omex-library.org/annotations.ttl#local-node-1025''"
    and b: "graph (snd (create_local_blood_cavity_definition initial_state ?loc))
     = [(''http://omex-library.org/annotations.ttl#local-node-1025'',
         ''http://biomodels.net/biology-qualifiers/is'',
         ''http://purl.obolibrary.org/obo/UBERON_0000178''),
        (''http://omex-library.org/annotations.ttl#local-node-1025'',
         ''http://biomodels.net/biology-qualifiers/isPartOf'',
         ''http://purl.obolibrary.org/obo/UBERON_0016514'')]"
    by (simp_all add: initial_state_def local_uri_def str_int_def str_nat.simps digit_char_def
        uri_defs)
  from t [where cs = "[?c1, ?c2]" and loc = ?loc and t = initial_state] d
  have "\<exists>l1 l2. l1 \<noteq> l2 \<and>
      (call_uri ?c1, isPropertyOf, l1) \<in> set (graph (run_calls initial_state [?c1, ?c2])) \<and>
      (call_uri ?c2, isPropertyOf, l2) \<in> set (graph (run_calls initial_state [?c1, ?c2]))"
    by blast
  then have c: "\<exists>l1 l2. l1 \<noteq> l2 \<and>
      (''http://omex-library.org/models/cvs-model.cellml#lv.blood.volume'',
       ''http://biomodels.net/biology-qualifiers/isPropertyOf'', l1)
        \<in> set (graph (run_calls initial_state [?c1, ?c2])) \<and>
      (''http://omex-library.org/models/cvs-model.cellml#rv.blood.pressure'',
       ''http://biomodels.net/biology-qualifiers/isPropertyOf'', l2)
        \<in> set (graph (run_calls initial_state [?c1, ?c2]))"
    by (simp add: model_uri_def uri_defs)
  from a b c show ?thesis by blast
qed

section \<open>The annotation emitter\<close>

text \<open>
  C7. Let the ID of a model variable resolve to \<open>cavity_uri\<close>, and let the deduplicator,
  called for it, return \<open>local_node\<close> and the state \<open>st1\<close>. The triples of the graph after
  \<^verbatim>\<open>create_blood_volume_annotation\<close> are those of \<open>st1\<close> together with
  (variable, \<^verbatim>\<open>isPropertyOf\<close>, \<open>local_node\<close>) and (variable, \<^verbatim>\<open>isVersionOf\<close>, OPB_00154);
  after \<^verbatim>\<open>create_blood_pressure_annotation\<close> the second triple names OPB_00509
  instead. The URI of the variable is \<^verbatim>\<open>http://omex-library.org/\<close>, the path of the
  model, \<^verbatim>\<open>#\<close> and the raw ID. Neither emitter touches the counter or prints anything
  beyond what the resolver and the deduplicator did.
\<close>

theorem emitter_adds_two_triples:
  assumes "map_to_uberon_cavity (hd (split_str CHR ''.'' model_id)) (stdout st) = (cavity_uri, out)"
    and "create_local_blood_cavity_definition (st\<lparr>stdout := out\<rparr>) cavity_uri = (local_node, st1)"
    and "model_variable_uri = ''http://omex-library.org/'' @ model @ ''#'' @ model_id"
  shows "set (graph (create_blood_volume_annotation st model model_id)) =
           set (graph st1) \<union>
             {(model_variable_uri, ''http://biomodels.net/biology-qualifiers/isPropertyOf'', local_node),
              (model_variable_uri, ''http://biomodels.net/biology-qualifiers/isVersionOf'',
               ''http://bhi.washington.edu/OPB#OPB_00154'')} \<and>
         set (graph (create_blood_pressure_annotation st model model_id)) =
           set (graph st1) \<union>
             {(model_variable_uri, ''http://biomodels.net/biology-qualifiers/isPropertyOf'', local_node),
              (model_variable_uri, ''http://biomodels.net/biology-qualifiers/isVersionOf'',
               ''http://bhi.washington.edu/OPB#OPB_00509'')} \<and>
         counter (create_blood_volume_annotation st model model_id) = counter st1 \<and>
         counter (create_blood_pressure_annotation st model model_id) = counter st1 \<and>
         stdout (create_blood_volume_annotation st model model_id) = out \<and>
         stdout (create_blood_pressure_annotation st model model_id) = out"
proof -
  have "stdout st1 = out"
    using create_stdout [of "st\<lparr>stdout := out\<rparr>" cavity_uri] assms(2) by simp
  with assms show ?thesis
    by (simp add: create_blood_volume_annotation_def create_blood_pressure_annotation_def
        uri_defs Let_def insert_commute)
qed

theorem emitter_adds_two_triples_witness:
  "set (graph (create_blood_volume_annotation initial_state ''models/cvs-model.cellml''
                 ''lv.blood.volume''))
     = {(''http://omex-library.org/annotations.ttl#local-node-1025'',
         ''http://biomodels.net/biology-qualifiers/is'',
         ''http://purl.obolibrary.org/obo/UBERON_0000178''),
        (''http://omex-library.org/annotations.ttl#local-node-1025'',
         ''http://biomodels.net/biology-qualifiers/isPartOf'',
         ''http://purl.obolibrary.org/obo/UBERON_0016514''),
        (''http://omex-library.org/models/cvs-model.cellml#lv.blood.volume'',
         ''http://biomodels.net/biology-qualifiers/isPropertyOf'',
         ''http://omex-library.org/annotations.ttl#local-node-1025''),
        (''http://omex-library.org/models/cvs-model.cellml#lv.blood.volume'',
         ''http://biomodels.net/biology-qualifiers/isVersionOf'',
         ''http://bhi.washington.edu/OPB#OPB_00154'')} \<and>
   set (graph (create_blood_pressure_annotation initial_state ''models/cvs-model.cellml''
                 ''lv.blood.volume''))
     = {(''http://omex-library.org/annotations.ttl#local-node-1025'',
         ''http://biomodels.net/biology-qualifiers/is'',
         ''http://purl.obolibrary.org/obo/UBERON_0000178''),
        (''http://omex-library.org/annotations.ttl#local-node-1025'',
         ''http://biomodels.net/biology-qualifiers/isPartOf'',
         ''http://purl.obolibrary.org/obo/UBERON_0016514''),
        (''http://omex-library.org/models/cvs-model.cellml#lv.blood.volume'',
         ''http://biomodels.net/biology-qualifiers/isPropertyOf'',
         ''http://omex-library.org/annotations.ttl#local-node-1025''),
        (''http://omex-library.org/models/cvs-model.cellml#lv.blood.volume'',
         ''http://biomodels.net/biology-qualifiers/isVersionOf'',
         ''http://bhi.washington.edu/OPB#OPB_00509'')}"
proof -
  let ?loc = "''http://purl.obolibrary.org/obo/UBERON_0016514''"
  let ?l = "''http://omex-library.org/annotations.ttl#local-node-1025''"
  let ?st1 = "\<lparr>graph = [(?l, ''http://biomodels.net/biology-qualifiers/is'',
                          ''http://purl.obolibrary.org/obo/UBERON_0000178''),
                        (?l, ''http://biomodels.net/biology-qualifiers/isPartOf'', ?loc)],
                counter = 1025, stdout = []\<rparr>"
  have h1: "map_to_uberon_cavity (hd (split_str CHR ''.'' ''lv.blood.volume'')) (stdout initial_state)
      = (?loc, [])"
    by (simp add: run_eval)
  have h2: "create_local_blood_cavity_definition (initial_state\<lparr>stdout := []\<rparr>) ?loc = (?l, ?st1)"
    by (simp add: run_eval)
  from emitter_adds_two_triples [OF h1 h2 refl, of "''models/cvs-model.cellml''"]
  show ?thesis
    by (simp add: insert_commute)
qed

section \<open>Two runs differ in the numbers of the local nodes only\<close>

text \<open>
  C8. Run the two loops of the driver on the same extracted IDs twice, each time on an
  empty graph, from any two values of the counter. There is an injective renaming of
  URIs that sends the local node of number \<open>n\<close> to the local node of number \<open>n\<close> plus the
  difference of the two counters and fixes every URI that is no local node, and the
  graph of the second run is the graph of the first, renamed triple by triple.
\<close>

theorem run_determinism:
  assumes "graph st1 = []" and "graph st2 = []"
  shows "\<exists>f. inj f \<and>
           (\<forall>n. f (local_uri n) = local_uri (n + (counter st2 - counter st1))) \<and>
           (\<forall>u. (\<forall>n. u \<noteq> local_uri n) \<longrightarrow> f u = u) \<and>
           graph (annotate_model_ids st2 ids) =
             map (\<lambda>(s, p, ob). (f s, f p, f ob)) (graph (annotate_model_ids st1 ids))"
proof -
  let ?d = "counter st2 - counter st1"
  let ?cs = "map (Volume_call cellml_file) (volume_ids ids) @
             map (Pressure_call cellml_file) (pressure_ids ids)"
  from assms have "sim ?d st1 st2"
    by (simp add: sim_def)
  moreover have "\<forall>c \<in> set ?cs. shift_local ?d (call_uri c) = call_uri c"
    by auto
  ultimately have "sim ?d (run_calls st1 ?cs) (run_calls st2 ?cs)"
    by (rule sim_run_calls)
  then have "graph (annotate_model_ids st2 ids) =
             map (shift_triple ?d) (graph (annotate_model_ids st1 ids))"
    by (simp add: sim_def annotate_model_ids_run_calls)
  moreover have "shift_triple ?d = (\<lambda>(s, p, ob). (shift_local ?d s, shift_local ?d p, shift_local ?d ob))"
    by (auto simp: fun_eq_iff)
  ultimately have "graph (annotate_model_ids st2 ids) =
             map (\<lambda>(s, p, ob). (shift_local ?d s, shift_local ?d p, shift_local ?d ob))
               (graph (annotate_model_ids st1 ids))"
    by simp
  moreover have "\<forall>u. (\<forall>n. u \<noteq> local_uri n) \<longrightarrow> shift_local ?d u = u"
    by (simp add: shift_local_other)
  ultimately show ?thesis
    using inj_shift_local [of ?d] by (intro exI [of _ "shift_local ?d"]) simp
qed

theorem run_determinism_witness:
  "\<exists>f. inj f \<and>
     (\<forall>n. f (local_uri n) = local_uri (n + (counter (initial_state\<lparr>counter := 5000\<rparr>)
                                              - counter initial_state))) \<and>
     (\<forall>u. (\<forall>n. u \<noteq> local_uri n) \<longrightarrow> f u = u) \<and>
     graph (annotate_model_ids (initial_state\<lparr>counter := 5000\<rparr>)
        \<lparr>volume_ids = [''lv.blood.volume'', ''unknown-cavity.blood.volume''],
         pressure_ids = [''lv.blood.pressure''], flow_ids = []\<rparr>) =
       map (\<lambda>(s, p, ob). (f s, f p, f ob))
         (graph (annotate_model_ids initial_state
            \<lparr>volume_ids = [''lv.blood.volume'', ''unknown-cavity.blood.volume''],
             pressure_ids = [''lv.blood.pressure''], flow_ids = []\<rparr>))"
  by (rule run_determinism) (simp_all add: initial_state_def)

section \<open>Annotating twice\<close>

text \<open>
  C9. Calling \<^verbatim>\<open>create_blood_volume_annotation\<close> a second time with the same model and
  ID, on the state the first call left, changes neither the graph nor the counter;
  likewise for \<^verbatim>\<open>create_blood_pressure_annotation\<close>. This holds from any state.
\<close>

theorem annotation_idempotent:
  "graph (create_blood_volume_annotation (create_blood_volume_annotation st model model_id)
            model model_id)
     = graph (create_blood_volume_annotation st model model_id) \<and>
   counter (create_blood_volume_annotation (create_blood_volume_annotation st model model_id)
            model model_id)
     = counter (create_blood_volume_annotation st model model_id) \<and>
   graph (create_blood_pressure_annotation (create_blood_pressure_annotation st model model_id)
            model model_id)
     = graph (create_blood_pressure_annotation st model model_id) \<and>
   counter (create_blood_pressure_annotation (create_blood_pressure_annotation st model model_id)
            model model_id)
     = counter (create_blood_pressure_annotation st model model_id)"
proof -
  have "graph (run_call (run_call st c) c) = graph (run_call st c) \<and>
        counter (run_call (run_call st c) c) = counter (run_call st c)" for c
  proof -
    obtain l st1 where r: "create_local_blood_cavity_definition st (call_location c) = (l, st1)"
      by force
    let ?t1 = "(call_uri c, isPropertyOf, l)"
    let ?t2 = "(call_uri c, isVersionOf, call_term c)"
    let ?g = "graph_add (graph_add (graph st1) ?t1) ?t2"
    have g: "graph (run_call st c) = ?g"
      by (simp add: run_call_graph r)
    from create_then_query [OF r] obtain rest
      where "query_subjects (graph st1) isPartOf (call_location c) = l # rest" ..
    then have "query_subjects ?g isPartOf (call_location c) = l # rest"
      by (simp add: query_subjects_graph_add_other)
    then have f: "create_local_blood_cavity_definition (run_call st c) (call_location c)
        = (l, run_call st c)"
      by (intro create_found) (simp add: g)
    then have "graph (run_call (run_call st c) c) = graph_add (graph_add ?g ?t1) ?t2"
      by (simp add: run_call_graph [of "run_call st c"] g)
    also have "\<dots> = ?g"
      by (simp add: graph_add_def)
    finally have "graph (run_call (run_call st c) c) = graph (run_call st c)"
      by (simp add: g)
    moreover from f have "counter (run_call (run_call st c) c) = counter (run_call st c)"
      by (simp add: run_call_counter [of "run_call st c"])
    ultimately show ?thesis by simp
  qed
  from this [of "Volume_call model model_id"] this [of "Pressure_call model model_id"]
  show ?thesis by simp
qed

section \<open>The lookup by isPartOf alone, in the pipeline\<close>

text \<open>
  C10. Let \<open>st\<close> be a state of the driver's loops, started on an empty graph. Every
  subject of an \<^verbatim>\<open>isPartOf\<close> triple is a local node and is blood; a triple whose subject
  is a variable of the model file has the predicate \<^verbatim>\<open>isPropertyOf\<close> or \<^verbatim>\<open>isVersionOf\<close>;
  and for every location the query by \<^verbatim>\<open>isPartOf\<close> alone has the same rows as the
  stricter query that requires the subject to be blood as well.
\<close>

theorem isPartOf_lookup_harmless:
  assumes "graph st0 = []" and "st = annotate_model_ids st0 ids"
  shows "(\<forall>s loc. (s, isPartOf, loc) \<in> set (graph st) \<longrightarrow>
            (\<exists>n. s = local_uri n) \<and> (s, bqbiol_is, BLOOD_URI) \<in> set (graph st)) \<and>
         (\<forall>model_id p ob. (model_uri cellml_file model_id, p, ob) \<in> set (graph st) \<longrightarrow>
            p = isPropertyOf \<or> p = isVersionOf) \<and>
         query_subjects (graph st) isPartOf cavity_uri = query_blood_subjects (graph st) cavity_uri"
proof -
  from assms have i: "dedup_inv (counter st0) st"
    by (simp add: run_from_empty annotate_model_ids_run_calls)
  from assms have k: "known_predicates st"
    by (simp add: known_predicates_run_calls annotate_model_ids_run_calls)
  have a: "(\<exists>n. s = local_uri n) \<and> (s, bqbiol_is, BLOOD_URI) \<in> set (graph st)"
    if "(s, isPartOf, loc) \<in> set (graph st)" for s loc
    using i that unfolding dedup_inv_def by blast
  have b: "p = isPropertyOf \<or> p = isVersionOf"
    if t: "(model_uri cellml_file model_id, p, ob) \<in> set (graph st)" for model_id p ob
  proof (rule ccontr)
    assume "\<not> (p = isPropertyOf \<or> p = isVersionOf)"
    with k t have "p = bqbiol_is \<or> p = isPartOf"
      unfolding known_predicates_def by blast
    with i t obtain n where "model_uri cellml_file model_id = local_uri n"
      unfolding dedup_inv_def by blast
    with model_uri_not_local show False by blast
  qed
  from a b dedup_inv_strict_query [OF i, of cavity_uri] show ?thesis by simp
qed

theorem isPartOf_lookup_harmless_witness:
  "query_blood_subjects
     (graph (annotate_model_ids initial_state
        \<lparr>volume_ids = [''lv.blood.volume'', ''unknown-cavity.blood.volume''],
         pressure_ids = [''lv.blood.pressure''], flow_ids = []\<rparr>))
     ''http://purl.obolibrary.org/obo/UBERON_0016514''
   = [''http://omex-library.org/annotations.ttl#local-node-1025'']"
proof -
  let ?ids = "\<lparr>volume_ids = [''lv.blood.volume'', ''unknown-cavity.blood.volume''],
         pressure_ids = [''lv.blood.pressure''], flow_ids = []\<rparr>"
  let ?loc = "''http://purl.obolibrary.org/obo/UBERON_0016514''"
  have e: "graph initial_state = []" by (simp add: initial_state_def)
  have "query_subjects (graph (annotate_model_ids initial_state ?ids)) isPartOf ?loc
      = [''http://omex-library.org/annotations.ttl#local-node-1025'']"
    by (simp add: example_run) (simp add: query_subjects_def uri_defs)
  with isPartOf_lookup_harmless [OF e refl, of ?ids ?loc] show ?thesis
    by simp
qed

end
